theory Spec2Isabelle
  imports Main "HOL-Library.Char_ord" "HOL-Library.List_Lexorder"
begin

section \<open>Attendance ledger (src/models/Attendance.js)\<close>

text \<open>
  One row of the \<^verbatim>\<open>attendance\<close> table, with the field names of the
  \<^verbatim>\<open>Attendance\<close> class. A time is a second-precision wall-clock reading (the
  code stores it formatted as \<^verbatim>\<open>YYYY-MM-DD HH:mm:ss\<close>, whose string order is
  the order of the readings); the handlers of api.js write readings of the clock of
  the zone \<^verbatim>\<open>Asia/Ho_Chi_Minh\<close>. A date is the day number of such a reading.
  Nullable columns are options. The ledger is the list of rows in insertion
  order. The store itself is taken to accept every insert and answer every query:
  constraint violations and connection failures, which every handler turns into its
  500 response, are outside the model.
\<close>

record attendance =
  userId :: string
  rfidCard :: string
  scanTime :: int
  scanDate :: int
  actionType :: string
  eventId :: "nat option"
  clientIp :: "string option"
  gatewayIp :: "string option"
  wifiName :: "string option"
  location :: "string option"
  notes_col :: "string option"
  status :: string

type_synonym ledger = "attendance list"

definition date_of :: "int \<Rightarrow> int" where
  "date_of t = t div 86400"

text \<open>\<^verbatim>\<open>sanitizeParams\<close>: an empty string is stored as NULL.\<close>

definition sanitize :: "string option \<Rightarrow> string option" where
  "sanitize p = (case p of None \<Rightarrow> None | Some s \<Rightarrow> if s = [] then None else Some s)"

text \<open>
  \<^verbatim>\<open>recordAttendance\<close>: the INSERT, with \<^verbatim>\<open>status || 'valid'\<close>; the
  row read back is the row written.
\<close>

definition recordAttendance :: "ledger \<Rightarrow> attendance \<Rightarrow> ledger \<times> attendance" where
  "recordAttendance L d =
     (let row = d\<lparr> clientIp := sanitize (clientIp d), gatewayIp := sanitize (gatewayIp d),
                    wifiName := sanitize (wifiName d), location := sanitize (location d),
                    notes_col := sanitize (notes_col d),
                    status := (if status d = [] then ''valid'' else status d) \<rparr>
      in (L @ [row], row))"

text \<open>
  \<^verbatim>\<open>ORDER BY scan_time DESC LIMIT 1\<close>. SQL leaves the choice among rows of equal
  \<^verbatim>\<open>scan_time\<close> open; the model takes the one inserted last.
\<close>

fun latest :: "attendance list \<Rightarrow> attendance option" where
  "latest [] = None"
| "latest (r # rs) =
     (case latest rs of
        None \<Rightarrow> Some r
      | Some m \<Rightarrow> if scanTime r \<le> scanTime m then Some m else Some r)"

text \<open>
  \<^verbatim>\<open>getLastScanForUser(userId, date = null)\<close>: the user's valid rows, of that date
  when one is given.
\<close>

definition getLastScanForUser :: "ledger \<Rightarrow> string \<Rightarrow> int option \<Rightarrow> attendance option" where
  "getLastScanForUser L uid date =
     latest (filter (\<lambda>r. userId r = uid \<and> status r = ''valid'' \<and>
                          (case date of None \<Rightarrow> True | Some d \<Rightarrow> scanDate r = d)) L)"

text \<open>
  \<^verbatim>\<open>checkDuplicateScan(userId, rfidCard, minInterval)\<close>: is there a row of that
  user and card later than \<open>now - minInterval\<close>. Here \<open>now\<close> is the reading of
  \<^verbatim>\<open>moment()\<close>, the wall clock of the zone of the server process, formatted like
  the stored times and compared with them as it is. The query has no condition on
  \<^verbatim>\<open>status\<close>.
\<close>

definition checkDuplicateScan :: "ledger \<Rightarrow> int \<Rightarrow> string \<Rightarrow> string \<Rightarrow> int \<Rightarrow> bool" where
  "checkDuplicateScan L now uid cardId minInterval =
     (let cutoffTime = now - minInterval
      in filter (\<lambda>r. userId r = uid \<and> rfidCard r = cardId \<and> cutoffTime < scanTime r) L \<noteq> [])"

text \<open>
  \<^verbatim>\<open>findByDateRange(startDate, endDate, userId = null)\<close>: rows of the dates
  between the two bounds, of one user when a (truthy) user id is given, latest first.
  The query has no condition on \<^verbatim>\<open>status\<close>.
\<close>

definition findByDateRange :: "ledger \<Rightarrow> int \<Rightarrow> int \<Rightarrow> string option \<Rightarrow> attendance list" where
  "findByDateRange L startDate endDate uid =
     rev (sort_key scanTime
       (filter (\<lambda>r. startDate \<le> scanDate r \<and> scanDate r \<le> endDate \<and>
                     (case uid of None \<Rightarrow> True | Some u \<Rightarrow> u = [] \<or> userId r = u)) L))"

text \<open>\<^verbatim>\<open>getAttendanceStats(startDate, endDate)\<close>: four aggregates over the valid rows
  of the date range.\<close>

record attendance_stats =
  totalRecords :: nat
  uniqueUsers :: nat
  actionTypeStats :: "(string \<times> nat) list"
  dailyStats :: "(int \<times> nat) list"

definition count_by :: "('r \<Rightarrow> 'k) \<Rightarrow> 'k list \<Rightarrow> 'r list \<Rightarrow> ('k \<times> nat) list" where
  "count_by key ks rows = map (\<lambda>k. (k, length (filter (\<lambda>r. key r = k) rows))) ks"

definition getAttendanceStats :: "ledger \<Rightarrow> int \<Rightarrow> int \<Rightarrow> attendance_stats" where
  "getAttendanceStats L startDate endDate =
     (let rows = filter (\<lambda>r. startDate \<le> scanDate r \<and> scanDate r \<le> endDate \<and>
                              status r = ''valid'') L
      in \<lparr> totalRecords = length rows,
           uniqueUsers = length (remdups (map userId rows)),
           actionTypeStats = count_by actionType (remdups (map actionType rows)) rows,
           dailyStats = count_by scanDate (sort (remdups (map scanDate rows))) rows \<rparr>)"

text \<open>\<^verbatim>\<open>getUserAttendanceReport(userId, startDate, endDate)\<close>: per date of the user's
  valid rows, the first entry, the last exit and the two counts.\<close>

record day_report =
  report_date :: int
  first_check_in :: "int option"
  last_check_out :: "int option"
  check_ins :: nat
  check_outs :: nat

definition min_time :: "attendance list \<Rightarrow> int option" where
  "min_time rows = (case rows of [] \<Rightarrow> None | r # rs \<Rightarrow> Some (fold min (map scanTime rs) (scanTime r)))"

definition max_time :: "attendance list \<Rightarrow> int option" where
  "max_time rows = (case rows of [] \<Rightarrow> None | r # rs \<Rightarrow> Some (fold max (map scanTime rs) (scanTime r)))"

definition getUserAttendanceReport :: "ledger \<Rightarrow> string \<Rightarrow> int \<Rightarrow> int \<Rightarrow> day_report list" where
  "getUserAttendanceReport L uid startDate endDate =
     (let rows = filter (\<lambda>r. userId r = uid \<and> startDate \<le> scanDate r \<and> scanDate r \<le> endDate \<and>
                              status r = ''valid'') L
      in map (\<lambda>d. let ins = filter (\<lambda>r. scanDate r = d \<and> actionType r = ''check_in'') rows;
                       outs = filter (\<lambda>r. scanDate r = d \<and> actionType r = ''check_out'') rows
                   in \<lparr> report_date = d, first_check_in = min_time ins, last_check_out = max_time outs,
                        check_ins = length ins, check_outs = length outs \<rparr>)
             (sort (remdups (map scanDate rows))))"

section \<open>Scan submission handlers (src/routes/api.js)\<close>

text \<open>
  What a handler reads of a request: the clock reading taken in the handler
  (\<^verbatim>\<open>moment.tz('Asia/Ho_Chi_Minh')\<close>, a wall-clock reading of that zone, in
  seconds), the offset from UTC of the zone of the server process (in seconds), the
  session user, the body fields, the network descriptors left by the network
  middleware, and the outcome of \<^verbatim>\<open>User.findByRfidCard\<close> for the submitted card
  (an owner id, no row, or a thrown error).
\<close>

datatype owner_lookup = Owner string | NoOwner | LookupThrows

record request =
  rq_now :: int
  rq_zone :: int
  rq_user :: string
  rq_card :: "string option"
  rq_owner :: owner_lookup
  rq_event :: "nat option"
  rq_location :: "string option"
  rq_scan_method :: "string option"
  rq_force_action :: "string option"
  rq_clientIp :: "string option"
  rq_gatewayIp :: "string option"
  rq_wifiName :: "string option"
  rq_ip :: "string option"

datatype api_error =
    MISSING_RFID | MISSING_LOCATION | MISSING_FIELDS | DUPLICATE_SCAN
  | MISSING_CARD_ID | INVALID_CARD_ID | MANUAL_RFID_ERROR | CHECKIN_ERROR | CHECKOUT_ERROR

text \<open>
  \<^verbatim>\<open>Asia/Ho_Chi_Minh\<close> is seven hours ahead of UTC. The reading of
  \<^verbatim>\<open>moment()\<close> at the instant of the handler's reading: the same instant on
  the wall clock of the zone of the process.
\<close>

definition hcm_offset :: int where
  "hcm_offset = 25200"

definition process_now :: "request \<Rightarrow> int" where
  "process_now q = rq_now q - hcm_offset + rq_zone q"

text \<open>JavaScript truthiness of an optional string and of an optional number.\<close>

definition truthy :: "string option \<Rightarrow> bool" where
  "truthy v = (case v of None \<Rightarrow> False | Some s \<Rightarrow> s \<noteq> [])"

definition truthy_num :: "nat option \<Rightarrow> bool" where
  "truthy_num v = (case v of None \<Rightarrow> False | Some n \<Rightarrow> n \<noteq> 0)"

text \<open>\<^verbatim>\<open>a || b\<close> on optional strings.\<close>

definition js_or :: "string option \<Rightarrow> string option \<Rightarrow> string option" where
  "js_or a b = (if truthy a then a else b)"

text \<open>
  The target user: the card's owner when the lookup returns a row with a truthy id,
  the session user when it returns none or throws (the \<^verbatim>\<open>catch\<close> ignores the
  error).
\<close>

definition resolve_target :: "request \<Rightarrow> string" where
  "resolve_target q =
     (case rq_owner q of
        Owner oid \<Rightarrow> if oid \<noteq> [] then oid else rq_user q
      | NoOwner \<Rightarrow> rq_user q
      | LookupThrows \<Rightarrow> rq_user q)"

definition opposite :: "string \<Rightarrow> string" where
  "opposite a = (if a = ''check_in'' then ''check_out'' else ''check_in'')"

text \<open>\<^verbatim>\<open>POST /rfid/scan\<close> (api.js, lines 26-150).\<close>

definition rfid_scan :: "ledger \<Rightarrow> request \<Rightarrow> api_error + (ledger \<times> attendance)" where
  "rfid_scan L q =
     (case rq_card q of
        None \<Rightarrow> Inl MISSING_RFID
      | Some cardId \<Rightarrow>
          if cardId = [] then Inl MISSING_RFID
          else
            let targetUserId = resolve_target q;
                today = date_of (rq_now q);
                currentTime = rq_now q
            in if checkDuplicateScan L (process_now q) targetUserId cardId 5 then Inl DUPLICATE_SCAN
               else
                 let lastScan = getLastScanForUser L targetUserId
                                  (if truthy_num (rq_event q) then None else Some today);
                     actionType =
                       (case lastScan of
                          None \<Rightarrow> ''check_in''
                        | Some ls \<Rightarrow>
                            if truthy_num (rq_event q) then opposite (actionType ls)
                            else if scanDate ls = today then opposite (actionType ls)
                            else ''check_in'')
                 in Inr (recordAttendance L
                      \<lparr> userId = targetUserId, rfidCard = cardId, scanTime = currentTime,
                        scanDate = today, actionType = actionType,
                        eventId = (if truthy_num (rq_event q) then rq_event q else None),
                        clientIp = js_or (js_or (rq_clientIp q) (rq_ip q)) None,
                        gatewayIp = js_or (rq_gatewayIp q) None,
                        wifiName = js_or (rq_wifiName q) None,
                        location = Some ''Main Office'',
                        notes_col = (if rq_user q \<noteq> [] \<and> rq_user q \<noteq> targetUserId
                                 then Some (''scanned_by:'' @ rq_user q) else None),
                        status = ''valid'' \<rparr>))"

text \<open>
  \<^verbatim>\<open>POST /attendance/event\<close> (api.js, lines 1771-1890). The lookup is called
  with three arguments; \<^verbatim>\<open>getLastScanForUser\<close> has two parameters, so the event id
  is dropped and the lookup is the day lookup. The handler then reads
  \<^verbatim>\<open>lastScan.event_id\<close>: the \<^verbatim>\<open>Attendance\<close> constructor assigns
  \<^verbatim>\<open>eventId\<close> and no property of that name, so the read is
  \<^verbatim>\<open>undefined\<close>, compared with \<^verbatim>\<open>==\<close> to the request's event id.
  (The handler's update of the participants table is not part of the ledger.)
\<close>

datatype 'a js_value = js_undefined | js_null | js_val 'a

definition loose_eq :: "'a js_value \<Rightarrow> 'a js_value \<Rightarrow> bool" where
  "loose_eq x y =
     (case x of
        js_val a \<Rightarrow> (case y of js_val b \<Rightarrow> a = b | js_undefined \<Rightarrow> False | js_null \<Rightarrow> False)
      | js_undefined \<Rightarrow> (case y of js_val b \<Rightarrow> False | js_undefined \<Rightarrow> True | js_null \<Rightarrow> True)
      | js_null \<Rightarrow> (case y of js_val b \<Rightarrow> False | js_undefined \<Rightarrow> True | js_null \<Rightarrow> True))"

definition event_id_property :: "attendance \<Rightarrow> nat js_value" where
  "event_id_property a = js_undefined"

definition digit_char :: "nat \<Rightarrow> char" where
  "digit_char n = ''0123456789'' ! (n mod 10)"

fun string_of_nat :: "nat \<Rightarrow> string" where
  "string_of_nat n =
     (if n < 10 then [digit_char n] else string_of_nat (n div 10) @ [digit_char n])"

definition method_or_manual :: "request \<Rightarrow> string" where
  "method_or_manual q =
     (case rq_scan_method q of None \<Rightarrow> ''manual'' | Some m \<Rightarrow> if m = [] then ''manual'' else m)"

definition attendance_event :: "ledger \<Rightarrow> request \<Rightarrow> api_error + (ledger \<times> attendance)" where
  "attendance_event L q =
     (case rq_card q of
        None \<Rightarrow> Inl MISSING_FIELDS
      | Some cardId \<Rightarrow>
          (case rq_event q of
             None \<Rightarrow> Inl MISSING_FIELDS
           | Some event_id \<Rightarrow>
               if event_id = 0 \<or> cardId = [] then Inl MISSING_FIELDS
               else
                 let uid = rq_user q;
                     currentTime = rq_now q;
                     today = date_of (rq_now q)
                 in if checkDuplicateScan L (process_now q) uid cardId 5 then Inl DUPLICATE_SCAN
                    else
                      let lastScan = getLastScanForUser L uid (Some today);
                          actionType =
                            (case lastScan of
                               None \<Rightarrow> ''check_in''
                             | Some ls \<Rightarrow>
                                 if loose_eq (event_id_property ls) (js_val event_id)
                                 then opposite (actionType ls) else ''check_in'')
                      in Inr (recordAttendance L
                           \<lparr> userId = uid, rfidCard = cardId, scanTime = currentTime,
                             scanDate = today, actionType = actionType,
                             eventId = Some event_id,
                             clientIp = js_or (js_or (rq_clientIp q) (rq_ip q)) None,
                             gatewayIp = js_or (rq_gatewayIp q) None,
                             wifiName = js_or (rq_wifiName q) None,
                             location = None,
                             notes_col = Some (''Method: '' @ method_or_manual q @ '', Event: '' @
                                               string_of_nat event_id),
                             status = ''valid'' \<rparr>)))"

text \<open>
  The location name of the check-in and check-out handlers: a numeric location is
  looked up by id among the active locations, any other by id or name.
  \<^verbatim>\<open>!isNaN(location)\<close> is a parameter (JavaScript's number parsing is not modelled).
  When the second lookup finds a row, the handler assigns to \<^verbatim>\<open>location\<close>, which
  the destructuring declared with \<^verbatim>\<open>const\<close>: the assignment throws, and the
  handler's \<^verbatim>\<open>catch\<close> answers 500. \<open>None\<close> is that outcome.
\<close>

record location_row =
  loc_id :: string
  loc_name :: string
  loc_active :: bool

definition resolve_location :: "(string \<Rightarrow> bool) \<Rightarrow> location_row list \<Rightarrow> string \<Rightarrow> string option" where
  "resolve_location is_number locs loc =
     (if is_number loc
      then (case filter (\<lambda>l. loc_id l = loc \<and> loc_active l) locs of
              [] \<Rightarrow> Some ''Unknown Location''
            | l # ls \<Rightarrow> Some (loc_name l))
      else (case filter (\<lambda>l. (loc_id l = loc \<or> loc_name l = loc) \<and> loc_active l) locs of
              [] \<Rightarrow> Some loc
            | l # ls \<Rightarrow> None))"

definition scan_notes :: "request \<Rightarrow> string \<Rightarrow> string" where
  "scan_notes q uid =
     (if rq_user q \<noteq> [] \<and> rq_user q \<noteq> uid
      then ''scanned_by:'' @ rq_user q @ '', method:'' @ method_or_manual q
      else ''method:'' @ method_or_manual q)"

text \<open>\<^verbatim>\<open>POST /attendance/checkin\<close> (api.js, lines 1162-1303), with its optional
  \<^verbatim>\<open>force_action\<close>.\<close>

definition attendance_checkin ::
    "(string \<Rightarrow> bool) \<Rightarrow> location_row list \<Rightarrow> ledger \<Rightarrow> request \<Rightarrow> api_error + (ledger \<times> attendance)" where
  "attendance_checkin is_number locs L q =
     (if \<not> truthy (rq_card q) then Inl MISSING_RFID
      else if \<not> truthy (rq_location q) then Inl MISSING_LOCATION
      else
        let cardId = the (rq_card q);
            loc = the (rq_location q);
            uid = resolve_target q;
            today = date_of (rq_now q);
            currentTime = rq_now q
        in if checkDuplicateScan L (process_now q) uid cardId 5 then Inl DUPLICATE_SCAN
           else
             let actionType =
                   (if rq_force_action q = Some ''check_in'' \<or> rq_force_action q = Some ''check_out''
                    then the (rq_force_action q)
                    else (case getLastScanForUser L uid (Some today) of
                            None \<Rightarrow> ''check_in''
                          | Some ls \<Rightarrow> opposite (actionType ls)))
             in (case resolve_location is_number locs loc of
                   None \<Rightarrow> Inl CHECKIN_ERROR
                 | Some locationName \<Rightarrow>
                     Inr (recordAttendance L
                       \<lparr> userId = uid, rfidCard = cardId, scanTime = currentTime,
                         scanDate = today, actionType = actionType, eventId = None,
                         clientIp = js_or (js_or (rq_clientIp q) (rq_ip q)) None,
                         gatewayIp = js_or (rq_gatewayIp q) None,
                         wifiName = js_or (rq_wifiName q) None,
                         location = js_or (Some locationName) None,
                         notes_col = Some (scan_notes q uid),
                         status = ''valid'' \<rparr>)))"

text \<open>\<^verbatim>\<open>POST /attendance/checkout\<close> (api.js, lines 1346-1474): the action is the
  constant \<^verbatim>\<open>'check_out'\<close>; the ledger is read by the duplicate check only.\<close>

definition attendance_checkout ::
    "(string \<Rightarrow> bool) \<Rightarrow> location_row list \<Rightarrow> ledger \<Rightarrow> request \<Rightarrow> api_error + (ledger \<times> attendance)" where
  "attendance_checkout is_number locs L q =
     (if \<not> truthy (rq_card q) then Inl MISSING_RFID
      else if \<not> truthy (rq_location q) then Inl MISSING_LOCATION
      else
        let cardId = the (rq_card q);
            loc = the (rq_location q);
            uid = resolve_target q;
            today = date_of (rq_now q);
            currentTime = rq_now q
        in if checkDuplicateScan L (process_now q) uid cardId 5 then Inl DUPLICATE_SCAN
           else
             let actionType = ''check_out''
             in (case resolve_location is_number locs loc of
                   None \<Rightarrow> Inl CHECKOUT_ERROR
                 | Some locationName \<Rightarrow>
                     Inr (recordAttendance L
                       \<lparr> userId = uid, rfidCard = cardId, scanTime = currentTime,
                         scanDate = today, actionType = actionType, eventId = None,
                         clientIp = js_or (js_or (rq_clientIp q) (rq_ip q)) None,
                         gatewayIp = js_or (rq_gatewayIp q) None,
                         wifiName = js_or (rq_wifiName q) None,
                         location = js_or (Some locationName) None,
                         notes_col = Some (scan_notes q uid),
                         status = ''valid'' \<rparr>)))"

text \<open>
  Replaying requests in submission order, one at a time (the serialized access of the
  specification): a rejected request leaves the ledger as it was.
\<close>

fun replay :: "(ledger \<Rightarrow> 'q \<Rightarrow> 'e + (ledger \<times> attendance)) \<Rightarrow> ledger \<Rightarrow> 'q list
                 \<Rightarrow> ledger \<times> ('e + attendance) list" where
  "replay h L [] = (L, [])"
| "replay h L (q # qs) =
     (case h L q of
        Inl e \<Rightarrow> (case replay h L qs of (L', rs) \<Rightarrow> (L', Inl e # rs))
      | Inr (L1, a) \<Rightarrow> (case replay h L1 qs of (L', rs) \<Rightarrow> (L', Inr a # rs)))"

definition accepted :: "('e + attendance) list \<Rightarrow> attendance list" where
  "accepted rs = concat (map (\<lambda>r. case r of Inl e \<Rightarrow> [] | Inr a \<Rightarrow> [a]) rs)"

text \<open>A scope is a calendar day (rows without an event) or an event.\<close>

datatype scope = Day int | Event nat

definition in_scope :: "string \<Rightarrow> scope \<Rightarrow> attendance \<Rightarrow> bool" where
  "in_scope uid sc r =
     (userId r = uid \<and>
      (case sc of Day d \<Rightarrow> scanDate r = d \<and> eventId r = None | Event e \<Rightarrow> eventId r = Some e))"

definition scope_actions :: "string \<Rightarrow> scope \<Rightarrow> attendance list \<Rightarrow> string list" where
  "scope_actions uid sc rows = map actionType (filter (in_scope uid sc) rows)"

fun alternates_from :: "string \<Rightarrow> string list \<Rightarrow> bool" where
  "alternates_from e [] = True"
| "alternates_from e (a # as) = (a = e \<and> alternates_from (opposite e) as)"

section \<open>Identifier normalizer and duplicate suppressor (RFIDService)\<close>

text \<open>
  Strings are lists of 8-bit characters, so the model covers ASCII input;
  \<^verbatim>\<open>\D\<close> is every character but the ten digits.
\<close>

definition is_digit :: "char \<Rightarrow> bool" where
  "is_digit c = (c \<in> set ''0123456789'')"

definition padStart :: "nat \<Rightarrow> char \<Rightarrow> string \<Rightarrow> string" where
  "padStart n c s = replicate (n - length s) c @ s"

text \<open>\<^verbatim>\<open>normalizeCardId\<close>: \<^verbatim>\<open>null\<close> for a falsy id, else the digits, padded to ten.\<close>

definition normalizeCardId :: "string \<Rightarrow> string option" where
  "normalizeCardId cardId =
     (if cardId = [] then None
      else let cleaned = filter is_digit cardId in Some (padStart 10 (CHR ''0'') cleaned))"

definition isValidCardId :: "string \<Rightarrow> bool" where
  "isValidCardId cardId =
     (if cardId = [] then False
      else if \<not> list_all is_digit cardId then False
      else if length cardId < 8 \<or> 12 < length cardId then False
      else True)"

text \<open>
  What \<^verbatim>\<open>processManualScan\<close> lets through: the normalized id, under the guard
  \<^verbatim>\<open>normalizedId && this.isValidCardId(normalizedId)\<close>.
  (\<^verbatim>\<open>handleRFIDData\<close> applies the same guard to the data of the serial port
  after trimming it.)
\<close>

definition accepted_card_id :: "string \<Rightarrow> string option" where
  "accepted_card_id raw =
     (case normalizeCardId raw of
        None \<Rightarrow> None
      | Some normalizedId \<Rightarrow>
          if normalizedId \<noteq> [] \<and> isValidCardId normalizedId then Some normalizedId else None)"

text \<open>
  \<^verbatim>\<open>processRFIDScan\<close>: the anti-spam map \<^verbatim>\<open>lastScans\<close> from card ids to
  \<^verbatim>\<open>Date.now()\<close> readings in milliseconds, and the event the service emits. A
  stored reading of 0 is falsy and does not suppress.
\<close>

datatype rfid_event = Spam string int | Scan string int

definition minScanInterval :: int where
  "minScanInterval = 5000"

definition processRFIDScan ::
    "int \<Rightarrow> string \<Rightarrow> (string \<rightharpoonup> int) \<Rightarrow> rfid_event \<times> (string \<rightharpoonup> int)" where
  "processRFIDScan now cardId lastScans =
     (case lastScans cardId of
        None \<Rightarrow> (Scan cardId now, lastScans(cardId \<mapsto> now))
      | Some lastScanTime \<Rightarrow>
          if lastScanTime \<noteq> 0 \<and> now - lastScanTime < minScanInterval
          then (Spam cardId (now - lastScanTime), lastScans)
          else (Scan cardId now, lastScans(cardId \<mapsto> now)))"

text \<open>\<^verbatim>\<open>processManualScan\<close>: whether the id was taken, what was emitted, the map.\<close>

definition processManualScan ::
    "int \<Rightarrow> string \<Rightarrow> (string \<rightharpoonup> int) \<Rightarrow> bool \<times> rfid_event option \<times> (string \<rightharpoonup> int)" where
  "processManualScan now cardId lastScans =
     (case normalizeCardId cardId of
        None \<Rightarrow> (False, None, lastScans)
      | Some normalizedId \<Rightarrow>
          if normalizedId \<noteq> [] \<and> isValidCardId normalizedId
          then (case processRFIDScan now normalizedId lastScans of (e, m) \<Rightarrow> (True, Some e, m))
          else (False, None, lastScans))"

text \<open>Two scans of one card, one after the other, and the events they emit.\<close>

definition two_scans ::
    "int \<Rightarrow> int \<Rightarrow> string \<Rightarrow> (string \<rightharpoonup> int) \<Rightarrow> rfid_event list \<times> (string \<rightharpoonup> int)" where
  "two_scans t1 t2 cardId lastScans =
     (case processRFIDScan t1 cardId lastScans of
        (e1, m1) \<Rightarrow> (case processRFIDScan t2 cardId m1 of (e2, m2) \<Rightarrow> ([e1, e2], m2)))"

definition is_scan :: "rfid_event \<Rightarrow> bool" where
  "is_scan e = (case e of Scan c t \<Rightarrow> True | Spam c d \<Rightarrow> False)"

text \<open>
  \<^verbatim>\<open>POST /rfid/manual\<close> (api.js, lines 322-357): the same normalization inline.
  For an id in the band the handler then calls \<^verbatim>\<open>route.stack[0].handle(req, res)\<close>
  of the \<^verbatim>\<open>/rfid/scan\<close> route: that is \<^verbatim>\<open>requireAuth\<close>, called without
  \<^verbatim>\<open>next\<close>; the session is there (the request has passed
  \<^verbatim>\<open>requireAuth\<close> once), so it calls \<^verbatim>\<open>next()\<close>, which throws, and the
  \<^verbatim>\<open>catch\<close> answers 500. No row is written.
\<close>

definition rfid_manual :: "ledger \<Rightarrow> request \<Rightarrow> string option \<Rightarrow> api_error + (ledger \<times> attendance)" where
  "rfid_manual L q card_id =
     (case card_id of
        None \<Rightarrow> Inl MISSING_CARD_ID
      | Some c \<Rightarrow>
          if c = [] then Inl MISSING_CARD_ID
          else
            let normalizedCardId = padStart 10 (CHR ''0'') (filter is_digit c)
            in if length normalizedCardId < 8 \<or> 12 < length normalizedCardId then Inl INVALID_CARD_ID
               else Inl MANUAL_RFID_ERROR)"

section \<open>Authorization gate (the network middleware)\<close>

text \<open>What the three getters read of a request; absent values are \<^verbatim>\<open>undefined\<close>.\<close>

record net_request =
  x_forwarded_for :: "string option"
  x_real_ip :: "string option"
  connection_remoteAddress :: "string option"
  socket_remoteAddress :: "string option"
  request_ip :: "string option"
  header_gateway_ip :: "string option"
  body_gateway_ip :: "string option"
  query_gateway_ip :: "string option"
  header_wifi_name :: "string option"
  body_wifi_name :: "string option"
  query_wifi_name :: "string option"

definition is_space :: "char \<Rightarrow> bool" where
  "is_space c = (c \<in> set [CHR '' '', CHR 0x09, CHR 0x0A, CHR 0x0B, CHR 0x0C, CHR 0x0D])"

definition trim :: "string \<Rightarrow> string" where
  "trim s = rev (dropWhile is_space (rev (dropWhile is_space s)))"

definition getClientIp :: "net_request \<Rightarrow> string option" where
  "getClientIp req =
     js_or (map_option (\<lambda>h. trim (takeWhile (\<lambda>c. c \<noteq> CHR '','') h)) (x_forwarded_for req))
       (js_or (x_real_ip req)
          (js_or (connection_remoteAddress req)
             (js_or (socket_remoteAddress req) (request_ip req))))"

definition getGatewayIp :: "net_request \<Rightarrow> string option" where
  "getGatewayIp req = js_or (header_gateway_ip req) (js_or (body_gateway_ip req) (query_gateway_ip req))"

definition getWifiName :: "net_request \<Rightarrow> string option" where
  "getWifiName req = js_or (header_wifi_name req) (js_or (body_wifi_name req) (query_wifi_name req))"

text \<open>
  The two allow-list checks as the source has them: each returns \<^verbatim>\<open>true\<close> in its
  first statement, under the comment \<^verbatim>\<open>TEMPORARILY DISABLED\<close>; the lookup against
  the allow-list tables \<^verbatim>\<open>network_configs\<close> and \<^verbatim>\<open>wifi_configs\<close> that follows
  is commented out.
\<close>

definition isCompanyNetwork :: "string option \<Rightarrow> bool" where
  "isCompanyNetwork ip = True"

definition isCompanyWifi :: "string option \<Rightarrow> bool" where
  "isCompanyWifi name = True"

record network_info =
  ni_clientIp :: "string option"
  ni_gatewayIp :: "string option"
  ni_wifiName :: "string option"
  accessMethod :: string

record denial_debug =
  dbg_clientIp :: "string option"
  dbg_gatewayIp :: "string option"
  dbg_wifiName :: "string option"
  gatewayAllowed :: bool
  clientIpAllowed :: bool
  wifiAllowed :: bool

datatype net_error = NETWORK_ACCESS_DENIED denial_debug

text \<open>
  \<^verbatim>\<open>requireCompanyNetwork\<close>, over the two checks it calls: either the request goes
  on with its network descriptors, or the 403 response with the evaluated signals
  (the localized message is left out).
\<close>

definition requireCompanyNetwork_with ::
    "(string option \<Rightarrow> bool) \<Rightarrow> (string option \<Rightarrow> bool) \<Rightarrow> net_request \<Rightarrow> net_error + network_info" where
  "requireCompanyNetwork_with isNetwork isWifi req =
     (let cIp = getClientIp req;
          gIp = getGatewayIp req;
          wName = getWifiName req;
          gAllowed = (if truthy gIp then isNetwork gIp else False);
          cAllowed = isNetwork cIp;
          wAllowed = (if truthy wName then isWifi wName else False);
          accessAllowed = (gAllowed \<or> cAllowed \<or> wAllowed)
      in if \<not> accessAllowed
         then Inl (NETWORK_ACCESS_DENIED
                \<lparr> dbg_clientIp = cIp, dbg_gatewayIp = gIp, dbg_wifiName = wName,
                  gatewayAllowed = gAllowed, clientIpAllowed = cAllowed, wifiAllowed = wAllowed \<rparr>)
         else Inr \<lparr> ni_clientIp = cIp, ni_gatewayIp = gIp, ni_wifiName = wName,
                    accessMethod = (if gAllowed then ''gateway''
                                    else if cAllowed then ''client_ip'' else ''wifi'') \<rparr>)"

definition requireCompanyNetwork :: "net_request \<Rightarrow> net_error + network_info" where
  "requireCompanyNetwork = requireCompanyNetwork_with isCompanyNetwork isCompanyWifi"

section \<open>Checkpoint registry and logging (src/routes/api.js)\<close>

text \<open>
  The tables the checkpoint handlers use. \<^verbatim>\<open>event_checkpoints\<close> has a unique key on
  (event name, checkpoint name): an INSERT of a pair that is there fails.
  \<^verbatim>\<open>event_checkpoint_logs\<close> is not created with the database but by the first
  check that gets as far as writing its log row
  (\<^verbatim>\<open>ensureEventCheckpointLogsTable\<close>); \<open>logs_table\<close> says that it exists.
  (\<^verbatim>\<open>event_checkpoints\<close> is created in the same way by the registry handlers and
  by every check that has resolved its event, so it exists whenever the log table
  does.)
\<close>

record checkpoint =
  cp_event_name :: string
  cp_name :: string
  cp_type :: string
  cp_order :: int
  cp_active :: bool

record participant =
  ep_event_id :: nat
  ep_user_id :: string
  ep_name :: "string option"
  ep_phone :: "string option"

record checkpoint_log =
  log_event_id :: nat
  log_user_id :: string
  log_checkpoint :: string
  log_time :: int
  log_method :: string

record event_store =
  events :: "(nat \<times> string) list"
  checkpoints :: "checkpoint list"
  participants :: "participant list"
  logs :: "checkpoint_log list"
  logs_table :: bool

subsection \<open>Adding a checkpoint\<close>

text \<open>
  \<^verbatim>\<open>replace(/[\s-]+/g, '_')\<close>: the flag says that the character before was part of
  a run already replaced.
\<close>

definition is_separator :: "char \<Rightarrow> bool" where
  "is_separator c = (is_space c \<or> c = CHR ''-'')"

fun replace_runs :: "bool \<Rightarrow> string \<Rightarrow> string" where
  "replace_runs in_run [] = []"
| "replace_runs in_run (c # cs) =
     (if is_separator c
      then (if in_run then replace_runs True cs else CHR ''_'' # replace_runs True cs)
      else c # replace_runs False cs)"

definition to_upper :: "char \<Rightarrow> char" where
  "to_upper c =
     (case map_of (zip ''abcdefghijklmnopqrstuvwxyz'' ''ABCDEFGHIJKLMNOPQRSTUVWXYZ'') c of
        None \<Rightarrow> c
      | Some u \<Rightarrow> u)"

definition toUpperCase :: "string \<Rightarrow> string" where
  "toUpperCase s = map to_upper s"

definition normalize_checkpoint_name :: "string \<Rightarrow> string" where
  "normalize_checkpoint_name checkpoint_name = toUpperCase (replace_runs False (trim checkpoint_name))"

text \<open>\<^verbatim>\<open>/^[A-Z0-9_]+$/\<close>\<close>

definition is_name_char :: "char \<Rightarrow> bool" where
  "is_name_char c = (c \<in> set ''ABCDEFGHIJKLMNOPQRSTUVWXYZ0123456789_'')"

definition name_allowed :: "string \<Rightarrow> bool" where
  "name_allowed n = (n \<noteq> [] \<and> list_all is_name_char n)"

record add_checkpoint_body =
  b_event_name :: "string option"
  b_event_id :: "nat option"
  b_checkpoint_name :: "string option"
  b_checkpoint_type :: "string option"
  b_type :: "string option"
  b_checkpointType :: "string option"
  b_display_order :: "int option"

datatype registry_error = FORBIDDEN | MISSING_REQUIRED | InvalidCheckpointType | InvalidCheckpointName

text \<open>\<^verbatim>\<open>a ?? d\<close>, and \<^verbatim>\<open>a || d\<close> with a string default.\<close>

definition coalesce :: "string option \<Rightarrow> string \<Rightarrow> string" where
  "coalesce a d = (case a of None \<Rightarrow> d | Some v \<Rightarrow> v)"

definition or_default :: "string option \<Rightarrow> string \<Rightarrow> string" where
  "or_default a d = (case a of None \<Rightarrow> d | Some v \<Rightarrow> if v = [] then d else v)"

text \<open>The INSERT, and the UPDATE of the \<^verbatim>\<open>catch\<close> when the INSERT fails on the
  unique key.\<close>

definition same_checkpoint :: "string \<Rightarrow> string \<Rightarrow> checkpoint \<Rightarrow> bool" where
  "same_checkpoint e n c = (cp_event_name c = e \<and> cp_name c = n)"

definition upsert_checkpoint :: "checkpoint list \<Rightarrow> string \<Rightarrow> string \<Rightarrow> string \<Rightarrow> int \<Rightarrow> checkpoint list" where
  "upsert_checkpoint tbl e n t ord =
     (if list_ex (same_checkpoint e n) tbl
      then map (\<lambda>c. if same_checkpoint e n c
                     then c\<lparr> cp_type := t, cp_order := ord, cp_active := True \<rparr> else c) tbl
      else tbl @ [\<lparr> cp_event_name = e, cp_name = n, cp_type = t, cp_order = ord, cp_active = True \<rparr>])"

text \<open>
  \<^verbatim>\<open>POST /event-manager/add-checkpoint\<close> (api.js, lines 1016-1068; a second handler
  registered later for the same path is never reached, the first one answers). The
  role is that of the session user, if any.
\<close>

definition add_checkpoint ::
    "string option \<Rightarrow> event_store \<Rightarrow> add_checkpoint_body \<Rightarrow> registry_error + event_store" where
  "add_checkpoint role S b =
     (if role \<noteq> Some ''admin'' \<and> role \<noteq> Some ''event_manager'' then Inl FORBIDDEN
      else
        let resolvedEventName =
              (if \<not> truthy (b_event_name b) \<and> truthy_num (b_event_id b)
               then (case filter (\<lambda>ev. Some (fst ev) = b_event_id b) (events S) of
                       [] \<Rightarrow> b_event_name b
                     | ev # evs \<Rightarrow> Some (snd ev))
               else b_event_name b)
        in if \<not> (truthy resolvedEventName \<and> truthy (b_checkpoint_name b)) then Inl MISSING_REQUIRED
           else
             let rawType = coalesce (b_checkpoint_type b)
                             (coalesce (b_type b) (coalesce (b_checkpointType b) ''IN''));
                 type = toUpperCase rawType
             in if type \<notin> set [''IN'', ''OUT''] then Inl InvalidCheckpointType
                else
                  let name = normalize_checkpoint_name (the (b_checkpoint_name b))
                  in if \<not> name_allowed name then Inl InvalidCheckpointName
                     else
                       let ord = (case b_display_order b of None \<Rightarrow> 1 | Some n \<Rightarrow> n)
                       in Inr (S\<lparr> checkpoints :=
                                  upsert_checkpoint (checkpoints S) (the resolvedEventName) name type ord \<rparr>))"

subsection \<open>Logging at a checkpoint\<close>

record check_body =
  k_event_name :: "string option"
  k_event_id :: "nat option"
  k_column_type :: "string option"
  k_card_id :: "string option"
  k_qr_data :: "string option"
  k_customer_id :: "string option"
  k_customer_name :: "string option"
  k_customer_phone :: "string option"

datatype check_error =
    MISSING_EVENT | MISSING_CHECKPOINT | EVENT_NOT_FOUND | CHECKPOINT_NOT_FOUND
  | NO_IDENTIFIER | INVALID_USER_ID | PARTICIPANT_NOT_FOUND | MISSING_EVENT_NAME
  | AVAILABILITY_ERROR

definition event_id_by_name :: "event_store \<Rightarrow> string \<Rightarrow> nat option" where
  "event_id_by_name S n = (case filter (\<lambda>ev. snd ev = n) (events S) of [] \<Rightarrow> None | ev # evs \<Rightarrow> Some (fst ev))"

definition check_identifier :: "check_body \<Rightarrow> string option" where
  "check_identifier b =
     (if truthy (k_card_id b) then Some (trim (the (k_card_id b)))
      else if truthy (k_qr_data b) then Some (trim (the (k_qr_data b)))
      else if truthy (k_customer_id b) then Some (trim (the (k_customer_id b)))
      else None)"

definition check_method :: "check_body \<Rightarrow> string" where
  "check_method b = (if truthy (k_card_id b) then ''rfid'' else if truthy (k_qr_data b) then ''qr'' else ''manual'')"

text \<open>
  \<^verbatim>\<open>POST /event-manager/check\<close> (api.js, lines 2102-2194) at clock reading
  \<open>now\<close>. \<open>numeric_ids\<close> says that the store is MySQL with an integer
  \<^verbatim>\<open>user_id\<close> column. The log row is appended whatever the earlier rows are.
\<close>

definition event_manager_check :: "bool \<Rightarrow> event_store \<Rightarrow> int \<Rightarrow> check_body \<Rightarrow> check_error + event_store" where
  "event_manager_check numeric_ids S now b =
     (if \<not> truthy (k_event_name b) \<and> \<not> truthy_num (k_event_id b) then Inl MISSING_EVENT
      else if \<not> truthy (k_column_type b) then Inl MISSING_CHECKPOINT
      else
        let column_type = the (k_column_type b);
            resolvedEventId =
              (if truthy_num (k_event_id b) then k_event_id b
               else if truthy (k_event_name b) then event_id_by_name S (the (k_event_name b))
               else None)
        in if \<not> truthy_num resolvedEventId then Inl EVENT_NOT_FOUND
           else if \<not> list_ex (\<lambda>c. cp_event_name c = (if truthy (k_event_name b) then the (k_event_name b) else [])
                                   \<and> cp_name c = column_type \<and> cp_active c) (checkpoints S)
           then Inl CHECKPOINT_NOT_FOUND
           else
             (case check_identifier b of
                None \<Rightarrow> Inl NO_IDENTIFIER
              | Some uid \<Rightarrow>
                  if numeric_ids \<and> \<not> (uid \<noteq> [] \<and> list_all is_digit uid) then Inl INVALID_USER_ID
                  else
                    let eid = the resolvedEventId;
                        existing = filter (\<lambda>p. ep_event_id p = eid \<and> ep_user_id p = uid) (participants S)
                    in if existing = [] \<and> \<not> truthy (k_customer_name b) then Inl PARTICIPANT_NOT_FOUND
                       else
                         let ps = (if existing = []
                                   then participants S @
                                        [\<lparr> ep_event_id = eid, ep_user_id = uid,
                                           ep_name = k_customer_name b,
                                           ep_phone = Some (or_default (k_customer_phone b) []) \<rparr>]
                                   else participants S)
                         in Inr (S\<lparr> participants := ps,
                                    logs := logs S @
                                      [\<lparr> log_event_id = eid, log_user_id = uid,
                                         log_checkpoint = column_type, log_time = now,
                                         log_method = check_method b \<rparr>],
                                    logs_table := True \<rparr>)))"

subsection \<open>The availability matrix\<close>

definition latest_time :: "int list \<Rightarrow> int option" where
  "latest_time ts = (case ts of [] \<Rightarrow> None | t # ts' \<Rightarrow> Some (fold max ts' t))"







section \<open>Notions used in the statements\<close>

text \<open>The row \<^verbatim>\<open>POST /rfid/scan\<close> writes for a target user and a card, as stored.\<close>

definition scan_row :: "ledger \<Rightarrow> request \<Rightarrow> string \<Rightarrow> string \<Rightarrow> attendance" where
  "scan_row L q target cardId =
     \<lparr> userId = target, rfidCard = cardId, scanTime = rq_now q, scanDate = date_of (rq_now q),
       actionType =
         (case getLastScanForUser L target
                 (if truthy_num (rq_event q) then None else Some (date_of (rq_now q))) of
            None \<Rightarrow> ''check_in''
          | Some ls \<Rightarrow>
              if truthy_num (rq_event q) then opposite (actionType ls)
              else if scanDate ls = date_of (rq_now q) then opposite (actionType ls)
              else ''check_in''),
       eventId = (if truthy_num (rq_event q) then rq_event q else None),
       clientIp = sanitize (js_or (js_or (rq_clientIp q) (rq_ip q)) None),
       gatewayIp = sanitize (js_or (rq_gatewayIp q) None),
       wifiName = sanitize (js_or (rq_wifiName q) None),
       location = Some ''Main Office'',
       notes_col = (if rq_user q \<noteq> [] \<and> rq_user q \<noteq> target
                    then Some (''scanned_by:'' @ rq_user q) else None),
       status = ''valid'' \<rparr>"

text \<open>A day-scoped scan of a user on a day: no event id, that target user, that date.\<close>

definition day_scan_of :: "string \<Rightarrow> int \<Rightarrow> request \<Rightarrow> bool" where
  "day_scan_of uid d q = (\<not> truthy_num (rq_event q) \<and> resolve_target q = uid \<and> date_of (rq_now q) = d)"

text \<open>
  The state between two scans of a day: \<open>e\<close> is the action the next scan will get,
  the opposite of the action of the latest valid row of the day.
\<close>

definition day_invariant :: "string \<Rightarrow> int \<Rightarrow> ledger \<Rightarrow> string \<Rightarrow> bool" where
  "day_invariant uid d L e =
     ((e = ''check_in'' \<or> e = ''check_out'') \<and>
      (case getLastScanForUser L uid (Some d) of
         None \<Rightarrow> e = ''check_in''
       | Some ls \<Rightarrow> actionType ls = opposite e))"

text \<open>
  The condition of the specification on the three signals: the declared gateway
  address matches, or the observed client address matches, or the declared network
  name matches.
\<close>

definition some_signal_matches ::
    "(string option \<Rightarrow> bool) \<Rightarrow> (string option \<Rightarrow> bool) \<Rightarrow> net_request \<Rightarrow> bool" where
  "some_signal_matches isNetwork isWifi req =
     ((truthy (getGatewayIp req) \<and> isNetwork (getGatewayIp req)) \<or>
      isNetwork (getClientIp req) \<or>
      (truthy (getWifiName req) \<and> isWifi (getWifiName req)))"

text \<open>
  The checkpoint type a request asks for: the first of the three accepted body fields
  that is present, \<^verbatim>\<open>IN\<close> when none is, in upper case; and the display
  order it asks for, 1 when absent.
\<close>

definition requested_type :: "add_checkpoint_body \<Rightarrow> string" where
  "requested_type b =
     toUpperCase (coalesce (b_checkpoint_type b) (coalesce (b_type b) (coalesce (b_checkpointType b) ''IN'')))"

definition requested_order :: "add_checkpoint_body \<Rightarrow> int" where
  "requested_order b = (case b_display_order b of None \<Rightarrow> 1 | Some n \<Rightarrow> n)"

text \<open>
  The key of the availability map joins user id and checkpoint name with \<^verbatim>\<open>::\<close>;
  a checkpoint name without a colon can be read back from the key. Names that passed
  the registry's check contain none.
\<close>

definition names_without_colon :: "event_store \<Rightarrow> bool" where
  "names_without_colon S =
     (list_all (\<lambda>c. CHR '':'' \<notin> set (cp_name c)) (checkpoints S) \<and>
      list_all (\<lambda>l. CHR '':'' \<notin> set (log_checkpoint l)) (logs S))"





section \<open>Sample values\<close>

definition example_request :: request where
  "example_request =
     \<lparr> rq_now = 0, rq_zone = 25200, rq_user = ''U1'', rq_card = Some ''0000012345'', rq_owner = NoOwner,
       rq_event = None, rq_location = None, rq_scan_method = None, rq_force_action = None,
       rq_clientIp = None, rq_gatewayIp = None, rq_wifiName = None, rq_ip = None \<rparr>"

definition voided_row :: attendance where
  "voided_row =
     \<lparr> userId = ''U1'', rfidCard = ''0000012345'', scanTime = 100, scanDate = 0,
       actionType = ''check_in'', eventId = None, clientIp = None, gatewayIp = None,
       wifiName = None, location = None, notes_col = None, status = ''voided'' \<rparr>"

definition valid_row :: attendance where
  "valid_row =
     \<lparr> userId = ''U1'', rfidCard = ''0000012345'', scanTime = 50, scanDate = 0,
       actionType = ''check_out'', eventId = None, clientIp = None, gatewayIp = None,
       wifiName = None, location = None, notes_col = None, status = ''valid'' \<rparr>"

definition four_day_scans :: "request list" where
  "four_day_scans =
     [example_request\<lparr> rq_now := 100 \<rparr>, example_request\<lparr> rq_now := 110 \<rparr>,
      example_request\<lparr> rq_now := 112 \<rparr>, example_request\<lparr> rq_now := 200 \<rparr>]"

text \<open>
  Scans of one user in two scopes: a workday scan, a scan for event 7, a workday
  scan; and a scan for event 7 followed by one for event 8.
\<close>

definition interleaved_scans :: "request list" where
  "interleaved_scans =
     [example_request\<lparr> rq_now := 100 \<rparr>,
      example_request\<lparr> rq_now := 150, rq_event := Some 7 \<rparr>,
      example_request\<lparr> rq_now := 200 \<rparr>]"

definition two_event_scans :: "request list" where
  "two_event_scans =
     [example_request\<lparr> rq_now := 100, rq_event := Some 7 \<rparr>,
      example_request\<lparr> rq_now := 200, rq_event := Some 8 \<rparr>]"

definition bare_request :: net_request where
  "bare_request =
     \<lparr> x_forwarded_for = None, x_real_ip = None, connection_remoteAddress = Some ''203.0.113.9'',
       socket_remoteAddress = None, request_ip = None,
       header_gateway_ip = None, body_gateway_ip = None, query_gateway_ip = None,
       header_wifi_name = None, body_wifi_name = None, query_wifi_name = None \<rparr>"

text \<open>An event whose only checkpoint has been deactivated, and a request to add it again.\<close>

definition closed_gate_store :: event_store where
  "closed_gate_store =
     \<lparr> events = [(1, ''Expo'')],
       checkpoints = [\<lparr> cp_event_name = ''Expo'', cp_name = ''MAIN_GATE'', cp_type = ''IN'',
                       cp_order = 1, cp_active = False \<rparr>],
       participants = [\<lparr> ep_event_id = 1, ep_user_id = ''P1'', ep_name = Some ''Ann'', ep_phone = None \<rparr>],
       logs = [], logs_table = False \<rparr>"

definition gate_body :: add_checkpoint_body where
  "gate_body =
     \<lparr> b_event_name = Some ''Expo'', b_event_id = None, b_checkpoint_name = Some '' main - gate '',
       b_checkpoint_type = Some ''out'', b_type = None, b_checkpointType = None,
       b_display_order = Some 3 \<rparr>"





section \<open>The identifier normalizer\<close>

lemma is_digit_zero: "is_digit (CHR ''0'')"
  by (simp add: is_digit_def)

lemma padded_digits: "list_all is_digit (padStart n (CHR ''0'') (filter is_digit s))"
  by (auto simp: padStart_def list_all_iff is_digit_zero)

lemma length_padStart: "length (padStart n c s) = max n (length s)"
  by (simp add: padStart_def)

lemma isValidCardId_padded:
  "isValidCardId (padStart 10 (CHR ''0'') (filter is_digit s)) = (length (filter is_digit s) \<le> 12)"
proof -
  let ?p = "padStart 10 (CHR ''0'') (filter is_digit s)"
  have len: "length ?p = max 10 (length (filter is_digit s))"
    by (rule length_padStart)
  then have ne: "?p \<noteq> []" by auto
  from ne padded_digits[of 10 s] len show ?thesis
    unfolding isValidCardId_def by auto
qed

lemma accepted_card_id_eq:
  "accepted_card_id s =
     (if s \<noteq> [] \<and> length (filter is_digit s) \<le> 12
      then Some (padStart 10 (CHR ''0'') (filter is_digit s)) else None)"
proof -
  have ne: "padStart 10 (CHR ''0'') (filter is_digit s) \<noteq> []"
    using length_padStart[of 10 "CHR ''0''" "filter is_digit s"] by auto
  show ?thesis
    using ne by (simp add: accepted_card_id_def normalizeCardId_def Let_def isValidCardId_padded)
qed

lemma processManualScan_accepts:
  "fst (processManualScan now s m) = (accepted_card_id s \<noteq> None)"
  by (simp add: processManualScan_def accepted_card_id_def split: option.splits prod.splits)

text \<open>
  Claim C6, as amended. The normalizer keeps the digits of its input and pads them
  on the left with zeros to ten characters. It lets nothing through for the empty
  input (the HTTP entry point answers \<^verbatim>\<open>MISSING_CARD_ID\<close>) and for an input with
  more than twelve digits (\<^verbatim>\<open>INVALID_CARD_ID\<close>); an input with one to twelve
  digits is let through as its padded digits; and whatever is let through is the
  padded digit string of the input, all digits, ten to twelve characters long (so
  within the band of 8 to 12, whose lower bound never rejects).
\<close>

theorem normalizer_band:
  "accepted_card_id [] = None \<and>
   rfid_manual L q (Some []) = Inl MISSING_CARD_ID \<and>
   (12 < length (filter is_digit s) \<longrightarrow>
      accepted_card_id s = None \<and> (s \<noteq> [] \<longrightarrow> rfid_manual L q (Some s) = Inl INVALID_CARD_ID)) \<and>
   (filter is_digit s \<noteq> [] \<and> length (filter is_digit s) \<le> 12 \<longrightarrow>
      accepted_card_id s = Some (padStart 10 (CHR ''0'') (filter is_digit s))) \<and>
   (accepted_card_id s = Some n \<longrightarrow>
      n = padStart 10 (CHR ''0'') (filter is_digit s) \<and> list_all is_digit n \<and>
      10 \<le> length n \<and> length n \<le> 12)"
proof -
  have a: "accepted_card_id [] = None"
    by (simp add: accepted_card_id_eq)
  have b: "rfid_manual L q (Some []) = Inl MISSING_CARD_ID"
    by (simp add: rfid_manual_def)
  have c: "12 < length (filter is_digit s) \<longrightarrow>
      accepted_card_id s = None \<and> (s \<noteq> [] \<longrightarrow> rfid_manual L q (Some s) = Inl INVALID_CARD_ID)"
    by (simp add: accepted_card_id_eq rfid_manual_def Let_def length_padStart)
  have d: "filter is_digit s \<noteq> [] \<and> length (filter is_digit s) \<le> 12 \<longrightarrow>
      accepted_card_id s = Some (padStart 10 (CHR ''0'') (filter is_digit s))"
    by (auto simp: accepted_card_id_eq)
  have e: "accepted_card_id s = Some n \<longrightarrow>
      n = padStart 10 (CHR ''0'') (filter is_digit s) \<and> list_all is_digit n \<and>
      10 \<le> length n \<and> length n \<le> 12"
    using padded_digits[of 10 s]
    by (auto simp: accepted_card_id_eq length_padStart split: if_splits)
  from a b c d e show ?thesis by blast
qed

theorem normalizer_band_witness:
  "accepted_card_id ''A-12345'' = Some ''0000012345'' \<and>
   accepted_card_id ''1234567890123'' = None"
  using normalizer_band[of "[]" example_request "''A-12345''" "''0000012345''"]
        normalizer_band[of "[]" example_request "''1234567890123''" "''0000012345''"]
  by (simp add: is_digit_def padStart_def eval_nat_numeral)

text \<open>
  Claim C6 as stated fails: an input without any digit is not rejected. Its digit
  string is empty, the padding makes it ten zeros, and that id passes the validity
  test and is processed as a scan.
\<close>

theorem no_digit_input_accepted:
  "filter is_digit ''abc'' = [] \<and> accepted_card_id ''abc'' = Some ''0000000000'' \<and>
   fst (processManualScan 1 ''abc'' Map.empty)"
  by code_simp

section \<open>The duplicate suppressor\<close>

lemma processRFIDScan_spam:
  "lastScans c = Some t \<Longrightarrow> t \<noteq> 0 \<Longrightarrow> now - t < minScanInterval \<Longrightarrow>
   processRFIDScan now c lastScans = (Spam c (now - t), lastScans)"
  by (simp add: processRFIDScan_def)

lemma processRFIDScan_accept:
  "lastScans c = None \<or> lastScans c = Some 0 \<or> (\<exists>t. lastScans c = Some t \<and> minScanInterval \<le> now - t) \<Longrightarrow>
   processRFIDScan now c lastScans = (Scan c now, lastScans(c \<mapsto> now))"
  by (auto simp: processRFIDScan_def)

text \<open>
  The in-memory suppressor of the card reader's service. The window is 5000 ms. A
  scan of a card whose last accepted scan (a non-zero clock reading \<open>t\<close>) is less
  than the window ago is rejected: the service emits \<^verbatim>\<open>spam\<close> and the map is
  unchanged. A scan at or beyond the window is accepted and the card's entry becomes
  \<open>now\<close>. So of two scans of a card, the first accepted at \<open>t1\<close> and the second
  less than the window later, exactly the first is emitted as a scan and the entry
  stays \<open>t1\<close>; with the second at or beyond the window both are scans and the entry
  is \<open>t2\<close>. The map is keyed by the card alone.
\<close>

lemma reader_window:
  "minScanInterval = 5000 \<and>
   (lastScans c = Some t \<and> t \<noteq> 0 \<and> now - t < minScanInterval \<longrightarrow>
      processRFIDScan now c lastScans = (Spam c (now - t), lastScans)) \<and>
   (lastScans c = Some t \<and> minScanInterval \<le> now - t \<longrightarrow>
      processRFIDScan now c lastScans = (Scan c now, lastScans(c \<mapsto> now))) \<and>
   (is_scan (fst (processRFIDScan t1 c lastScans)) \<and> t1 \<noteq> 0 \<and> t2 - t1 < minScanInterval \<longrightarrow>
      two_scans t1 t2 c lastScans = ([Scan c t1, Spam c (t2 - t1)], lastScans(c \<mapsto> t1))) \<and>
   (is_scan (fst (processRFIDScan t1 c lastScans)) \<and> minScanInterval \<le> t2 - t1 \<longrightarrow>
      two_scans t1 t2 c lastScans = ([Scan c t1, Scan c t2], lastScans(c \<mapsto> t2)))"
proof -
  have a: "minScanInterval = 5000" by (simp add: minScanInterval_def)
  have b: "lastScans c = Some t \<and> t \<noteq> 0 \<and> now - t < minScanInterval \<longrightarrow>
      processRFIDScan now c lastScans = (Spam c (now - t), lastScans)"
    by (simp add: processRFIDScan_spam)
  have c: "lastScans c = Some t \<and> minScanInterval \<le> now - t \<longrightarrow>
      processRFIDScan now c lastScans = (Scan c now, lastScans(c \<mapsto> now))"
    by (simp add: processRFIDScan_accept)
  have first: "is_scan (fst (processRFIDScan t1 c lastScans)) \<Longrightarrow>
      processRFIDScan t1 c lastScans = (Scan c t1, lastScans(c \<mapsto> t1))"
    by (auto simp: processRFIDScan_def is_scan_def split: option.splits if_splits)
  have d: "is_scan (fst (processRFIDScan t1 c lastScans)) \<and> t1 \<noteq> 0 \<and> t2 - t1 < minScanInterval \<longrightarrow>
      two_scans t1 t2 c lastScans = ([Scan c t1, Spam c (t2 - t1)], lastScans(c \<mapsto> t1))"
  proof
    assume h: "is_scan (fst (processRFIDScan t1 c lastScans)) \<and> t1 \<noteq> 0 \<and> t2 - t1 < minScanInterval"
    have "processRFIDScan t2 c (lastScans(c \<mapsto> t1)) = (Spam c (t2 - t1), lastScans(c \<mapsto> t1))"
      using h by (intro processRFIDScan_spam) simp_all
    with first h show "two_scans t1 t2 c lastScans = ([Scan c t1, Spam c (t2 - t1)], lastScans(c \<mapsto> t1))"
      by (simp add: two_scans_def)
  qed
  have e: "is_scan (fst (processRFIDScan t1 c lastScans)) \<and> minScanInterval \<le> t2 - t1 \<longrightarrow>
      two_scans t1 t2 c lastScans = ([Scan c t1, Scan c t2], lastScans(c \<mapsto> t2))"
  proof
    assume h: "is_scan (fst (processRFIDScan t1 c lastScans)) \<and> minScanInterval \<le> t2 - t1"
    have "processRFIDScan t2 c (lastScans(c \<mapsto> t1)) = (Scan c t2, (lastScans(c \<mapsto> t1))(c \<mapsto> t2))"
      using h by (intro processRFIDScan_accept) simp
    with first h show "two_scans t1 t2 c lastScans = ([Scan c t1, Scan c t2], lastScans(c \<mapsto> t2))"
      by (simp add: two_scans_def)
  qed
  show ?thesis
    by (rule conjI[OF a conjI[OF b conjI[OF c conjI[OF d e]]]])
qed

lemma reader_window_example:
  "processRFIDScan 4000 ''0000012345'' [''0000012345'' \<mapsto> 1000] =
     (Spam ''0000012345'' 3000, [''0000012345'' \<mapsto> 1000]) \<and>
   processRFIDScan 6000 ''0000012345'' [''0000012345'' \<mapsto> 1000] =
     (Scan ''0000012345'' 6000, [''0000012345'' \<mapsto> 6000]) \<and>
   two_scans 1000 4000 ''0000012345'' Map.empty =
     ([Scan ''0000012345'' 1000, Spam ''0000012345'' 3000], [''0000012345'' \<mapsto> 1000])"
proof -
  let ?c = "''0000012345''"
  have s1: "processRFIDScan 4000 ?c [?c \<mapsto> 1000] = (Spam ?c 3000, [?c \<mapsto> 1000])"
    using reader_window[of "[?c \<mapsto> 1000]" ?c 1000 4000 1000 4000]
    by (simp add: minScanInterval_def)
  have s2: "processRFIDScan 6000 ?c [?c \<mapsto> 1000] = (Scan ?c 6000, [?c \<mapsto> 6000])"
    using reader_window[of "[?c \<mapsto> 1000]" ?c 1000 6000 1000 4000]
    by (simp add: minScanInterval_def)
  have s3: "two_scans 1000 4000 ?c Map.empty = ([Scan ?c 1000, Spam ?c 3000], [?c \<mapsto> 1000])"
    using reader_window[of "Map.empty" ?c 1000 6000 1000 4000]
    by (simp add: minScanInterval_def is_scan_def processRFIDScan_def)
  show ?thesis
    by (rule conjI[OF s1 conjI[OF s2 s3]])
qed

text \<open>
  The ledger-based check of the HTTP handlers, on second-precision times: the cutoff
  is a reading of the clock of the process zone, the rows hold readings of the clock
  of \<^verbatim>\<open>Asia/Ho_Chi_Minh\<close>. A scan is a duplicate exactly when a row of the user
  and card is less than five seconds plus the difference of the two zones old; a
  duplicate leaves the ledger untouched (the handler returns before it writes).
  The window is the five seconds of the call exactly when the process runs in a zone
  seven hours ahead of UTC.
\<close>

lemma checkDuplicateScan_iff:
  "checkDuplicateScan L now uid c w =
     (\<exists>r \<in> set L. userId r = uid \<and> rfidCard r = c \<and> now - scanTime r < w)"
  by (auto simp: checkDuplicateScan_def Let_def filter_empty_conv)

lemma rfid_scan_eq:
  "rfid_scan L q =
     (case rq_card q of
        None \<Rightarrow> Inl MISSING_RFID
      | Some c \<Rightarrow>
          if c = [] then Inl MISSING_RFID
          else if checkDuplicateScan L (process_now q) (resolve_target q) c 5 then Inl DUPLICATE_SCAN
          else Inr (L @ [scan_row L q (resolve_target q) c], scan_row L q (resolve_target q) c))"
  by (simp add: rfid_scan_def scan_row_def recordAttendance_def Let_def sanitize_def
      split: option.splits)

lemma rfid_scan_window:
  assumes "rq_card q = Some c" "c \<noteq> []"
  shows "rfid_scan L q = Inl DUPLICATE_SCAN \<longleftrightarrow>
           (\<exists>r \<in> set L. userId r = resolve_target q \<and> rfidCard r = c \<and>
                         rq_now q - scanTime r < 5 + (hcm_offset - rq_zone q))"
proof -
  have eq: "\<And>r. (process_now q - scanTime r < 5) = (rq_now q - scanTime r < 5 + (hcm_offset - rq_zone q))"
    unfolding process_now_def by arith
  show ?thesis
    using assms by (simp add: rfid_scan_eq checkDuplicateScan_iff eq)
qed

lemma rfid_scan_window_home:
  assumes "rq_card q = Some c" "c \<noteq> []" "rq_zone q = hcm_offset"
  shows "rfid_scan L q = Inl DUPLICATE_SCAN \<longleftrightarrow>
           (\<exists>r \<in> set L. userId r = resolve_target q \<and> rfidCard r = c \<and> rq_now q - scanTime r < 5)"
  using rfid_scan_window[OF assms(1,2), of L] assms(3) by simp

text \<open>
  Claim C3, on the code. The rejection with \<^verbatim>\<open>DUPLICATE_SCAN\<close> is that of the
  ledger-based check. On a server process whose zone is UTC, after a scan accepted at
  100 the same user's scan of the same card ten seconds later is rejected, and so is
  every scan up to seven hours and four seconds later; the scan seven hours and five
  seconds later is the first one accepted. The claim has the second scan accepted,
  being beyond the five seconds. On a process two hours ahead of
  \<^verbatim>\<open>Asia/Ho_Chi_Minh\<close> a scan one second after an accepted one is accepted too,
  where the claim has it rejected. On a process in the zone of the handlers the
  window is the five seconds of the claim: four seconds later rejected, five seconds
  later accepted.
\<close>

theorem duplicate_window_shifts_with_process_zone:
  "map (map_sum id actionType)
     (snd (replay rfid_scan []
        [example_request\<lparr> rq_zone := 0, rq_now := 100 \<rparr>,
         example_request\<lparr> rq_zone := 0, rq_now := 110 \<rparr>,
         example_request\<lparr> rq_zone := 0, rq_now := 25304 \<rparr>,
         example_request\<lparr> rq_zone := 0, rq_now := 25305 \<rparr>])) =
     [Inr ''check_in'', Inl DUPLICATE_SCAN, Inl DUPLICATE_SCAN, Inr ''check_out''] \<and>
   map (map_sum id actionType)
     (snd (replay rfid_scan []
        [example_request\<lparr> rq_zone := 32400, rq_now := 100 \<rparr>,
         example_request\<lparr> rq_zone := 32400, rq_now := 101 \<rparr>])) =
     [Inr ''check_in'', Inr ''check_out''] \<and>
   map (map_sum id actionType)
     (snd (replay rfid_scan []
        [example_request\<lparr> rq_zone := 25200, rq_now := 100 \<rparr>,
         example_request\<lparr> rq_zone := 25200, rq_now := 104 \<rparr>,
         example_request\<lparr> rq_zone := 25200, rq_now := 105 \<rparr>])) =
     [Inr ''check_in'', Inl DUPLICATE_SCAN, Inr ''check_out'']"
  by code_simp

section \<open>The authorization gate\<close>

text \<open>
  The body of the middleware, whatever the two checks it calls answer: the request
  goes on when one of the three signals matches (a declared gateway address, the
  observed client address, a declared network name), with the request's network
  descriptors; when none matches the answer is \<^verbatim>\<open>NETWORK_ACCESS_DENIED\<close> with the
  three signals and the three verdicts.
\<close>

lemma gate_body_inclusive_or:
  "(some_signal_matches isNetwork isWifi req \<longrightarrow>
      (\<exists>info. requireCompanyNetwork_with isNetwork isWifi req = Inr info \<and>
              ni_clientIp info = getClientIp req \<and> ni_gatewayIp info = getGatewayIp req \<and>
              ni_wifiName info = getWifiName req)) \<and>
   (\<not> some_signal_matches isNetwork isWifi req \<longrightarrow>
      requireCompanyNetwork_with isNetwork isWifi req =
        Inl (NETWORK_ACCESS_DENIED
          \<lparr> dbg_clientIp = getClientIp req, dbg_gatewayIp = getGatewayIp req,
            dbg_wifiName = getWifiName req,
            gatewayAllowed = False, clientIpAllowed = False, wifiAllowed = False \<rparr>))"
proof -
  have a: "some_signal_matches isNetwork isWifi req \<longrightarrow>
      (\<exists>info. requireCompanyNetwork_with isNetwork isWifi req = Inr info \<and>
              ni_clientIp info = getClientIp req \<and> ni_gatewayIp info = getGatewayIp req \<and>
              ni_wifiName info = getWifiName req)"
    by (auto simp: some_signal_matches_def requireCompanyNetwork_with_def Let_def)
  have b: "\<not> some_signal_matches isNetwork isWifi req \<longrightarrow>
      requireCompanyNetwork_with isNetwork isWifi req =
        Inl (NETWORK_ACCESS_DENIED
          \<lparr> dbg_clientIp = getClientIp req, dbg_gatewayIp = getGatewayIp req,
            dbg_wifiName = getWifiName req,
            gatewayAllowed = False, clientIpAllowed = False, wifiAllowed = False \<rparr>)"
    by (auto simp: some_signal_matches_def requireCompanyNetwork_with_def Let_def)
  show ?thesis
    by (rule conjI[OF a b])
qed

text \<open>
  The middleware as it is, with the two checks of the source, which return
  \<^verbatim>\<open>true\<close> in their first statement: every request goes on, by the gateway when
  it declares one and by its client address otherwise, and no request is denied.
\<close>

lemma gate_lets_every_request_pass:
  "requireCompanyNetwork req =
     Inr \<lparr> ni_clientIp = getClientIp req, ni_gatewayIp = getGatewayIp req,
           ni_wifiName = getWifiName req,
           accessMethod = (if truthy (getGatewayIp req) then ''gateway'' else ''client_ip'') \<rparr>"
  by (simp add: requireCompanyNetwork_def requireCompanyNetwork_with_def Let_def
      isCompanyNetwork_def isCompanyWifi_def)

text \<open>
  Claim C7, on the code. A request from the address 203.0.113.9 that declares no
  gateway and no network name goes on, with \<^verbatim>\<open>client_ip\<close> as its access method;
  so does a request from that address that declares the gateway 198.51.100.1 and the
  network name \<^verbatim>\<open>CoffeeShop\<close>, with \<^verbatim>\<open>gateway\<close> as its access method. The
  middleware reads neither the allow-list tables nor the deployment's
  \<^verbatim>\<open>enableNetworkRestriction\<close> setting, so this is the answer with enforcement
  switched on and an allow-list that holds none of these values, where the claim has
  \<^verbatim>\<open>NetworkAccessDenied\<close> with the evaluated signals.
\<close>

theorem unlisted_request_passes_gate:
  "requireCompanyNetwork bare_request =
     Inr \<lparr> ni_clientIp = Some ''203.0.113.9'', ni_gatewayIp = None, ni_wifiName = None,
           accessMethod = ''client_ip'' \<rparr> \<and>
   requireCompanyNetwork
     (bare_request\<lparr> header_gateway_ip := Some ''198.51.100.1'',
                    header_wifi_name := Some ''CoffeeShop'' \<rparr>) =
     Inr \<lparr> ni_clientIp = Some ''203.0.113.9'', ni_gatewayIp = Some ''198.51.100.1'',
           ni_wifiName = Some ''CoffeeShop'', accessMethod = ''gateway'' \<rparr>"
  by code_simp

section \<open>The scan handlers\<close>

text \<open>
  Claim C10. A scan with a card that passes the duplicate check is recorded for the
  resolved target user. When the card has no owner, or the owner lookup throws, the
  target is the session user and the row has no note; when the card's owner is
  another user, the row is the owner's and its note names the session user.
\<close>

theorem unknown_card_falls_back_to_submitter:
  "rq_card q = Some c \<and> c \<noteq> [] \<and> \<not> checkDuplicateScan L (process_now q) (resolve_target q) c 5 \<longrightarrow>
     (\<exists>row. rfid_scan L q = Inr (L @ [row], row) \<and> rfidCard row = c \<and>
        userId row = resolve_target q \<and>
        (rq_owner q = NoOwner \<or> rq_owner q = LookupThrows \<longrightarrow>
           userId row = rq_user q \<and> notes_col row = None) \<and>
        (\<forall>oid. rq_owner q = Owner oid \<and> oid \<noteq> [] \<and> oid \<noteq> rq_user q \<and> rq_user q \<noteq> [] \<longrightarrow>
           userId row = oid \<and> notes_col row = Some (''scanned_by:'' @ rq_user q)))"
  by (auto simp: rfid_scan_eq scan_row_def resolve_target_def)

theorem unknown_card_falls_back_to_submitter_witness:
  "(\<exists>row. rfid_scan [] (example_request\<lparr> rq_owner := LookupThrows \<rparr>) = Inr ([row], row) \<and>
      userId row = ''U1'' \<and> notes_col row = None) \<and>
   (\<exists>row. rfid_scan [] (example_request\<lparr> rq_owner := Owner ''U2'' \<rparr>) = Inr ([row], row) \<and>
      userId row = ''U2'' \<and> notes_col row = Some ''scanned_by:U1'')"
proof -
  have s1: "\<exists>row. rfid_scan [] (example_request\<lparr> rq_owner := LookupThrows \<rparr>) = Inr ([row], row) \<and>
      userId row = ''U1'' \<and> notes_col row = None"
    using unknown_card_falls_back_to_submitter[of "example_request\<lparr> rq_owner := LookupThrows \<rparr>"
            "''0000012345''" "[]"]
    by (simp add: example_request_def checkDuplicateScan_def) blast
  have s2: "\<exists>row. rfid_scan [] (example_request\<lparr> rq_owner := Owner ''U2'' \<rparr>) = Inr ([row], row) \<and>
      userId row = ''U2'' \<and> notes_col row = Some ''scanned_by:U1''"
    using unknown_card_falls_back_to_submitter[of "example_request\<lparr> rq_owner := Owner ''U2'' \<rparr>"
            "''0000012345''" "[]"]
    by (simp add: example_request_def checkDuplicateScan_def) blast
  show ?thesis by (rule conjI[OF s1 s2])
qed

text \<open>
  Claim C1, on the code. Two scans of one user for event 7 through
  \<^verbatim>\<open>POST /attendance/event\<close>, 100 seconds apart: both are recorded as entries, where
  the claim has the second as the exit. One workday scan and then the user's first
  scan for event 7 through \<^verbatim>\<open>POST /rfid/scan\<close>: the event scan is recorded as an
  exit, where the claim has an entry (no earlier row carries the event id).
\<close>

theorem event_scan_ignores_event_scope:
  "map (map_sum id actionType)
     (snd (replay attendance_event []
        [example_request\<lparr> rq_now := 100, rq_event := Some 7 \<rparr>,
         example_request\<lparr> rq_now := 200, rq_event := Some 7 \<rparr>])) =
     [Inr ''check_in'', Inr ''check_in''] \<and>
   map (map_sum id (\<lambda>a. (eventId a, actionType a)))
     (snd (replay rfid_scan []
        [example_request\<lparr> rq_now := 100 \<rparr>,
         example_request\<lparr> rq_now := 200, rq_event := Some 7 \<rparr>])) =
     [Inr (None, ''check_in''), Inr (Some 7, ''check_out'')]"
  by code_simp

text \<open>
  Claim C2, on the code. \<^verbatim>\<open>POST /attendance/checkout\<close> on an empty ledger records
  an exit, where the claim has \<^verbatim>\<open>NotCheckedIn\<close>, and records a second exit 100
  seconds later, where the claim has \<^verbatim>\<open>AlreadyCheckedOut\<close>;
  \<^verbatim>\<open>POST /attendance/checkin\<close> with a forced \<^verbatim>\<open>check_out\<close> on an empty ledger
  records an exit as well.
\<close>

theorem forced_exit_recorded_unguarded:
  "map (map_sum id actionType)
     (snd (replay (attendance_checkout (\<lambda>s. True) []) []
        [example_request\<lparr> rq_now := 100, rq_location := Some ''1'' \<rparr>,
         example_request\<lparr> rq_now := 200, rq_location := Some ''1'' \<rparr>])) =
     [Inr ''check_out'', Inr ''check_out''] \<and>
   map (map_sum id actionType)
     (snd (replay (attendance_checkin (\<lambda>s. True) []) []
        [example_request\<lparr> rq_now := 100, rq_location := Some ''1'',
                           rq_force_action := Some ''check_out'' \<rparr>])) =
     [Inr ''check_out'']"
  by code_simp

section \<open>Voided rows\<close>

lemma latest_mem: "latest rs = Some r \<Longrightarrow> r \<in> set rs"
  by (induction rs arbitrary: r) (auto split: option.splits if_splits)

lemma latest_None: "latest rs = None \<longleftrightarrow> rs = []"
  by (cases rs) (auto split: option.splits)

lemma filter_valid_filter:
  "filter (\<lambda>r. P r \<and> status r = ''valid'' \<and> Q r) (filter (\<lambda>r. status r = ''valid'') L) =
   filter (\<lambda>r. P r \<and> status r = ''valid'' \<and> Q r) L"
  by (induction L) auto

lemma filter_valid_filter2:
  "filter (\<lambda>r. P r \<and> status r = ''valid'') (filter (\<lambda>r. status r = ''valid'') L) =
   filter (\<lambda>r. P r \<and> status r = ''valid'') L"
  by (induction L) auto

text \<open>
  Claim C5, as amended. The lookup of the last scan, the range statistics and the
  per-user day report read valid rows only: each gives on a ledger what it gives on
  the ledger without its non-valid rows, and the row the lookup returns is valid.
\<close>

theorem voided_rows_excluded:
  "getLastScanForUser (filter (\<lambda>r. status r = ''valid'') L) uid date = getLastScanForUser L uid date \<and>
   (getLastScanForUser L uid date = Some a \<longrightarrow> status a = ''valid'') \<and>
   getAttendanceStats (filter (\<lambda>r. status r = ''valid'') L) d1 d2 = getAttendanceStats L d1 d2 \<and>
   getUserAttendanceReport (filter (\<lambda>r. status r = ''valid'') L) uid d1 d2 =
     getUserAttendanceReport L uid d1 d2"
proof -
  have a: "getLastScanForUser (filter (\<lambda>r. status r = ''valid'') L) uid date = getLastScanForUser L uid date"
    unfolding getLastScanForUser_def by (simp only: filter_valid_filter)
  have b: "getLastScanForUser L uid date = Some a \<longrightarrow> status a = ''valid''"
    unfolding getLastScanForUser_def by (auto dest: latest_mem)
  have c: "getAttendanceStats (filter (\<lambda>r. status r = ''valid'') L) d1 d2 = getAttendanceStats L d1 d2"
    unfolding getAttendanceStats_def
    using filter_valid_filter2[of "\<lambda>r. d1 \<le> scanDate r \<and> d2 \<ge> scanDate r" L]
    by (simp add: conj_ac)
  have d: "getUserAttendanceReport (filter (\<lambda>r. status r = ''valid'') L) uid d1 d2 =
     getUserAttendanceReport L uid d1 d2"
    unfolding getUserAttendanceReport_def
    using filter_valid_filter2[of "\<lambda>r. userId r = uid \<and> d1 \<le> scanDate r \<and> d2 \<ge> scanDate r" L]
    by (simp add: conj_ac)
  show ?thesis by (rule conjI[OF a conjI[OF b conjI[OF c d]]])
qed

theorem voided_rows_excluded_witness:
  "getLastScanForUser [valid_row, voided_row] ''U1'' None = Some valid_row \<and>
   status valid_row = ''valid'' \<and>
   totalRecords (getAttendanceStats [valid_row, voided_row] 0 0) = 1 \<and>
   map check_ins (getUserAttendanceReport [valid_row, voided_row] ''U1'' 0 0) = [0]"
proof -
  note inst = voided_rows_excluded[of "[valid_row, voided_row]" "''U1''" None valid_row 0 0]
  have s1: "getLastScanForUser [valid_row, voided_row] ''U1'' None = Some valid_row"
    using inst by (simp add: getLastScanForUser_def valid_row_def voided_row_def)
  have s2: "status valid_row = ''valid''"
    using inst s1 by blast
  have s3: "totalRecords (getAttendanceStats [valid_row, voided_row] 0 0) = 1"
    by (simp add: getAttendanceStats_def valid_row_def voided_row_def Let_def)
  have s4: "map check_ins (getUserAttendanceReport [valid_row, voided_row] ''U1'' 0 0) = [0]"
    by (simp add: getUserAttendanceReport_def valid_row_def voided_row_def)
  show ?thesis by (rule conjI[OF s1 conjI[OF s2 conjI[OF s3 s4]]])
qed

text \<open>
  Claim C5 as stated fails: the duplicate check and the date-range scan have no
  condition on the validity flag. A voided row two seconds old makes the next scan
  of its user and card a duplicate, and the date-range scan returns it.
\<close>

theorem voided_row_seen_by_duplicate_check:
  "status voided_row \<noteq> ''valid'' \<and>
   checkDuplicateScan [voided_row] 102 ''U1'' ''0000012345'' 5 \<and>
   rfid_scan [voided_row] (example_request\<lparr> rq_now := 102 \<rparr>) = Inl DUPLICATE_SCAN \<and>
   findByDateRange [voided_row] 0 0 None = [voided_row]"
proof -
  have a: "status voided_row \<noteq> ''valid'' \<and>
   checkDuplicateScan [voided_row] 102 ''U1'' ''0000012345'' 5 \<and>
   rfid_scan [voided_row] (example_request\<lparr> rq_now := 102 \<rparr>) = Inl DUPLICATE_SCAN"
    by code_simp
  have b: "findByDateRange [voided_row] 0 0 None = [voided_row]"
    by (simp add: findByDateRange_def voided_row_def)
  from a b show ?thesis by simp
qed

section \<open>Alternation\<close>

lemma latest_append:
  "\<forall>x \<in> set rs. scanTime x \<le> scanTime r \<Longrightarrow> latest (rs @ [r]) = Some r"
  by (induction rs) auto

lemma lookup_after_append:
  assumes "userId a = uid" "scanDate a = d" "status a = ''valid''"
    and "\<forall>r \<in> set L. userId r = uid \<and> scanDate r = d \<and> status r = ''valid'' \<longrightarrow> scanTime r < scanTime a"
  shows "getLastScanForUser (L @ [a]) uid (Some d) = Some a"
proof -
  let ?P = "\<lambda>r. userId r = uid \<and> status r = ''valid'' \<and> (case Some d of None \<Rightarrow> True | Some d' \<Rightarrow> scanDate r = d')"
  have "\<forall>x \<in> set (filter ?P L). scanTime x \<le> scanTime a"
    using assms(4) by auto
  then have "latest (filter ?P L @ [a]) = Some a"
    by (rule latest_append)
  moreover have "filter ?P (L @ [a]) = filter ?P L @ [a]"
    using assms(1-3) by simp
  ultimately show ?thesis
    unfolding getLastScanForUser_def by simp
qed

lemma lookup_date: "getLastScanForUser L uid (Some d) = Some ls \<Longrightarrow> scanDate ls = d"
  unfolding getLastScanForUser_def by (auto dest: latest_mem)

lemma opposite_opposite:
  "e = ''check_in'' \<or> e = ''check_out'' \<Longrightarrow> opposite (opposite e) = e"
  by (auto simp: opposite_def)

lemma opposite_range: "opposite e = ''check_in'' \<or> opposite e = ''check_out''"
  by (simp add: opposite_def)

lemma day_invariant_append:
  assumes inv: "day_invariant uid d L e"
    and a: "userId a = uid" "scanDate a = d" "status a = ''valid''" "actionType a = e"
    and early: "\<forall>r \<in> set L. userId r = uid \<and> scanDate r = d \<and> status r = ''valid'' \<longrightarrow> scanTime r < scanTime a"
  shows "day_invariant uid d (L @ [a]) (opposite e)"
proof -
  have "getLastScanForUser (L @ [a]) uid (Some d) = Some a"
    using a(1-3) early by (rule lookup_after_append)
  moreover have "e = ''check_in'' \<or> e = ''check_out''"
    using inv by (simp add: day_invariant_def)
  ultimately show ?thesis
    using a(4) opposite_range[of e] by (simp add: day_invariant_def opposite_opposite)
qed

lemma accepted_simps:
  "accepted [] = []"
  "accepted (Inl x # rs) = accepted rs"
  "accepted (Inr a # rs) = a # accepted rs"
  by (simp_all add: accepted_def)

lemma replay_rejected:
  "h L q = Inl x \<Longrightarrow> snd (replay h L (q # qs)) = Inl x # snd (replay h L qs)"
  by (cases "replay h L qs") simp

lemma replay_accepted:
  "h L q = Inr (L1, a) \<Longrightarrow> snd (replay h L (q # qs)) = Inr a # snd (replay h L1 qs)"
  by (cases "replay h L1 qs") simp

text \<open>
  The replay of any handler whose accepted step writes, after the rows of the day so
  far, a valid row of the user and day with the expected action: the actions of the
  accepted steps alternate from the expected one.
\<close>

lemma replay_alternates:
  fixes h :: "ledger \<Rightarrow> 'q \<Rightarrow> 'e + (ledger \<times> attendance)" and tm :: "'q \<Rightarrow> int"
  assumes step: "\<And>L q e. q \<in> set qs \<Longrightarrow> day_invariant uid d L e \<Longrightarrow>
             (\<exists>x. h L q = Inl x) \<or>
             (\<exists>a. h L q = Inr (L @ [a], a) \<and> userId a = uid \<and> scanDate a = d \<and>
                  status a = ''valid'' \<and> scanTime a = tm q \<and> actionType a = e)"
    and sorted: "sorted_wrt (<) (map tm qs)"
    and inv: "day_invariant uid d L e"
    and early: "\<forall>r \<in> set L. userId r = uid \<and> scanDate r = d \<and> status r = ''valid'' \<longrightarrow>
                  (\<forall>q \<in> set qs. scanTime r < tm q)"
  shows "alternates_from e (map actionType (accepted (snd (replay h L qs))))"
  using step sorted inv early
proof (induction qs arbitrary: L e)
  case Nil
  then show ?case by (simp add: accepted_simps)
next
  case (Cons q qs)
  have step': "\<And>L q e. q \<in> set qs \<Longrightarrow> day_invariant uid d L e \<Longrightarrow>
             (\<exists>x. h L q = Inl x) \<or>
             (\<exists>a. h L q = Inr (L @ [a], a) \<and> userId a = uid \<and> scanDate a = d \<and>
                  status a = ''valid'' \<and> scanTime a = tm q \<and> actionType a = e)"
    using Cons.prems(1) by simp
  have sorted': "sorted_wrt (<) (map tm qs)"
    using Cons.prems(2) by simp
  have later: "\<forall>q' \<in> set qs. tm q < tm q'"
    using Cons.prems(2) by simp
  from Cons.prems(1)[of q L e] Cons.prems(3)
  consider (rej) x where "h L q = Inl x"
    | (acc) a where "h L q = Inr (L @ [a], a)" "userId a = uid" "scanDate a = d"
        "status a = ''valid''" "scanTime a = tm q" "actionType a = e"
    by auto
  then show ?case
  proof cases
    case rej
    have "alternates_from e (map actionType (accepted (snd (replay h L qs))))"
      using step' sorted' Cons.prems(3) Cons.prems(4) by (intro Cons.IH) auto
    then show ?thesis
      using rej by (simp add: accepted_simps replay_rejected del: replay.simps)
  next
    case acc
    have early_a: "\<forall>r \<in> set L. userId r = uid \<and> scanDate r = d \<and> status r = ''valid'' \<longrightarrow> scanTime r < scanTime a"
      using Cons.prems(4) acc(5) by simp
    have inv': "day_invariant uid d (L @ [a]) (opposite e)"
      using Cons.prems(3) acc(2,3,4,6) early_a by (rule day_invariant_append)
    have early': "\<forall>r \<in> set (L @ [a]). userId r = uid \<and> scanDate r = d \<and> status r = ''valid'' \<longrightarrow>
                  (\<forall>q \<in> set qs. scanTime r < tm q)"
      using Cons.prems(4) later acc(5) by auto
    have "alternates_from (opposite e) (map actionType (accepted (snd (replay h (L @ [a]) qs))))"
      using step' sorted' inv' early' by (rule Cons.IH)
    then show ?thesis
      using acc(1,6) by (simp add: accepted_simps replay_accepted del: replay.simps)
  qed
qed

lemma replay_accepted_all:
  fixes h :: "ledger \<Rightarrow> 'q \<Rightarrow> 'e + (ledger \<times> attendance)"
  assumes "\<And>L q L1 a. q \<in> set qs \<Longrightarrow> h L q = Inr (L1, a) \<Longrightarrow> P a"
  shows "list_all P (accepted (snd (replay h L qs)))"
  using assms
proof (induction qs arbitrary: L)
  case Nil
  then show ?case by (simp add: accepted_simps)
next
  case (Cons q qs)
  have ih: "\<And>L'. list_all P (accepted (snd (replay h L' qs)))"
    using Cons.prems by (intro Cons.IH) auto
  show ?case
  proof (cases "h L q")
    case (Inl x)
    then show ?thesis using ih[of L] by (simp add: replay_rejected accepted_simps del: replay.simps)
  next
    case (Inr p)
    obtain L1 a where p: "p = (L1, a)" by (cases p)
    have "P a" using Cons.prems[of q L L1 a] Inr p by simp
    then show ?thesis
      using ih[of L1] Inr p by (simp add: replay_accepted accepted_simps del: replay.simps)
  qed
qed

lemma rfid_scan_day_step:
  assumes q: "day_scan_of uid d q" and inv: "day_invariant uid d L e"
  shows "(\<exists>x. rfid_scan L q = Inl x) \<or>
         (\<exists>a. rfid_scan L q = Inr (L @ [a], a) \<and> userId a = uid \<and> scanDate a = d \<and>
              status a = ''valid'' \<and> scanTime a = rq_now q \<and> actionType a = e)"
proof (cases "\<exists>x. rfid_scan L q = Inl x")
  case True
  then show ?thesis by simp
next
  case False
  then obtain c where r: "rfid_scan L q = Inr (L @ [scan_row L q uid c], scan_row L q uid c)"
    using q by (auto simp: rfid_scan_eq day_scan_of_def split: option.splits if_splits)
  have e: "e = ''check_in'' \<or> e = ''check_out''"
    using inv by (simp add: day_invariant_def)
  have "actionType (scan_row L q uid c) = e"
  proof (cases "getLastScanForUser L uid (Some d)")
    case None
    then show ?thesis using q inv by (simp add: scan_row_def day_scan_of_def day_invariant_def)
  next
    case (Some ls)
    then have "scanDate ls = d" by (rule lookup_date)
    moreover have "actionType ls = opposite e" using inv Some by (simp add: day_invariant_def)
    ultimately show ?thesis
      using q Some e by (simp add: scan_row_def day_scan_of_def opposite_opposite)
  qed
  then show ?thesis
    using r q by (auto simp: scan_row_def day_scan_of_def)
qed

lemma rfid_scan_day_row:
  assumes q: "day_scan_of uid d q" and r: "rfid_scan L q = Inr (L1, a)"
  shows "in_scope uid (Day d) a"
  using q r
  by (auto simp: rfid_scan_eq day_scan_of_def scan_row_def in_scope_def split: option.splits if_splits)

text \<open>
  Scans of one scope alone. For a user and a calendar day on which the ledger has no
  valid row of the user yet, replaying day-scoped scans (no event id) of that user
  on that day, one at a time and with strictly increasing clock readings, yields
  accepted actions that start with \<^verbatim>\<open>check_in\<close> and alternate; every accepted scan
  is a row of that day scope. Rejected scans (duplicates) are skipped.
\<close>

lemma day_scans_alone_alternate:
  "list_all (day_scan_of uid d) qs \<and> sorted_wrt (<) (map rq_now qs) \<and>
   filter (\<lambda>r. userId r = uid \<and> scanDate r = d \<and> status r = ''valid'') L = [] \<longrightarrow>
     alternates_from ''check_in''
       (scope_actions uid (Day d) (accepted (snd (replay rfid_scan L qs)))) \<and>
     length (scope_actions uid (Day d) (accepted (snd (replay rfid_scan L qs)))) =
       length (accepted (snd (replay rfid_scan L qs)))"
proof
  assume h: "list_all (day_scan_of uid d) qs \<and> sorted_wrt (<) (map rq_now qs) \<and>
   filter (\<lambda>r. userId r = uid \<and> scanDate r = d \<and> status r = ''valid'') L = []"
  let ?acc = "accepted (snd (replay rfid_scan L qs))"
  have none: "\<forall>r \<in> set L. \<not> (userId r = uid \<and> scanDate r = d \<and> status r = ''valid'')"
    using h by (simp add: filter_empty_conv)
  have lookup: "getLastScanForUser L uid (Some d) = None"
    using none by (auto simp: getLastScanForUser_def latest_None filter_empty_conv)
  have inv: "day_invariant uid d L ''check_in''"
    using lookup by (simp add: day_invariant_def)
  have alt: "alternates_from ''check_in'' (map actionType ?acc)"
  proof (rule replay_alternates[where tm = rq_now and uid = uid and d = d])
    fix L' q e
    assume "q \<in> set qs" "day_invariant uid d L' e"
    moreover from \<open>q \<in> set qs\<close> h have "day_scan_of uid d q" by (simp add: list_all_iff)
    ultimately show "(\<exists>x. rfid_scan L' q = Inl x) \<or>
         (\<exists>a. rfid_scan L' q = Inr (L' @ [a], a) \<and> userId a = uid \<and> scanDate a = d \<and>
              status a = ''valid'' \<and> scanTime a = rq_now q \<and> actionType a = e)"
      by (intro rfid_scan_day_step)
  next
    show "sorted_wrt (<) (map rq_now qs)" using h by simp
  next
    show "day_invariant uid d L ''check_in''" by (rule inv)
  next
    show "\<forall>r\<in>set L. userId r = uid \<and> scanDate r = d \<and> status r = ''valid'' \<longrightarrow>
             (\<forall>q\<in>set qs. scanTime r < rq_now q)"
      using none by blast
  qed
  have "list_all (in_scope uid (Day d)) ?acc"
  proof (rule replay_accepted_all)
    fix L' q L1 a
    assume "q \<in> set qs" "rfid_scan L' q = Inr (L1, a)"
    moreover from \<open>q \<in> set qs\<close> h have "day_scan_of uid d q" by (simp add: list_all_iff)
    ultimately show "in_scope uid (Day d) a" by (intro rfid_scan_day_row)
  qed
  then have all: "filter (in_scope uid (Day d)) ?acc = ?acc"
    by (simp add: list_all_iff)
  show "alternates_from ''check_in'' (scope_actions uid (Day d) ?acc) \<and>
     length (scope_actions uid (Day d) ?acc) = length ?acc"
    using alt all by (simp add: scope_actions_def)
qed

lemma day_scans_alone_example:
  "list_all (day_scan_of ''U1'' 0) four_day_scans \<and>
   sorted_wrt (<) (map rq_now four_day_scans) \<and>
   alternates_from ''check_in''
     (scope_actions ''U1'' (Day 0) (accepted (snd (replay rfid_scan [] four_day_scans)))) \<and>
   map (map_sum id actionType) (snd (replay rfid_scan [] four_day_scans)) =
     [Inr ''check_in'', Inr ''check_out'', Inl DUPLICATE_SCAN, Inr ''check_in'']"
proof -
  have a: "list_all (day_scan_of ''U1'' 0) four_day_scans"
    by code_simp
  have b: "sorted_wrt (<) (map rq_now four_day_scans)"
    by code_simp
  have c: "alternates_from ''check_in''
     (scope_actions ''U1'' (Day 0) (accepted (snd (replay rfid_scan [] four_day_scans))))"
    using day_scans_alone_alternate[of "''U1''" 0 four_day_scans "[]"] a b by simp
  have d: "map (map_sum id actionType) (snd (replay rfid_scan [] four_day_scans)) =
     [Inr ''check_in'', Inr ''check_out'', Inl DUPLICATE_SCAN, Inr ''check_in'']"
    by code_simp
  show ?thesis by (rule conjI[OF a conjI[OF b conjI[OF c d]]])
qed

text \<open>
  Claim C4, on the code. Scans of one user in two scopes, one after the other: after
  a workday scan at 100, recorded as an entry, the user's first scan for event 7, at
  150, is recorded as an exit, and the next workday scan, at 200, as an entry again.
  So the actions of the day scope are \<^verbatim>\<open>check_in, check_in\<close>, two equal actions
  in a row, and those of the scope of event 7 start with \<^verbatim>\<open>check_out\<close>. Likewise
  the first scan for event 8, after a scan for event 7, is an exit. The claim has
  every scope start with an entry and alternate. The lookup of the last scan is by
  user and, for a workday scan, by date: it is not restricted to the scope of the
  scan.
\<close>

theorem interleaved_scopes_break_alternation:
  "map (map_sum id (\<lambda>a. (eventId a, actionType a)))
     (snd (replay rfid_scan [] interleaved_scans)) =
     [Inr (None, ''check_in''), Inr (Some 7, ''check_out''), Inr (None, ''check_in'')] \<and>
   scope_actions ''U1'' (Day 0) (accepted (snd (replay rfid_scan [] interleaved_scans))) =
     [''check_in'', ''check_in''] \<and>
   \<not> alternates_from ''check_in''
       (scope_actions ''U1'' (Day 0) (accepted (snd (replay rfid_scan [] interleaved_scans)))) \<and>
   scope_actions ''U1'' (Event 7) (accepted (snd (replay rfid_scan [] interleaved_scans))) =
     [''check_out''] \<and>
   \<not> alternates_from ''check_in''
       (scope_actions ''U1'' (Event 7) (accepted (snd (replay rfid_scan [] interleaved_scans)))) \<and>
   scope_actions ''U1'' (Event 8) (accepted (snd (replay rfid_scan [] two_event_scans))) =
     [''check_out''] \<and>
   \<not> alternates_from ''check_in''
       (scope_actions ''U1'' (Event 8) (accepted (snd (replay rfid_scan [] two_event_scans))))"
  by code_simp

section \<open>The checkpoint registry\<close>

lemma add_checkpoint_eq:
  assumes "role = Some ''admin'' \<or> role = Some ''event_manager''"
    and "b_event_name b = Some en" "en \<noteq> []" "b_checkpoint_name b = Some raw" "raw \<noteq> []"
  shows "add_checkpoint role S b =
     (if requested_type b \<notin> set [''IN'', ''OUT''] then Inl InvalidCheckpointType
      else if \<not> name_allowed (normalize_checkpoint_name raw) then Inl InvalidCheckpointName
      else Inr (S\<lparr> checkpoints := upsert_checkpoint (checkpoints S) en (normalize_checkpoint_name raw)
                                      (requested_type b) (requested_order b) \<rparr>))"
  using assms
  by (auto simp: add_checkpoint_def Let_def truthy_def requested_type_def requested_order_def)

lemma filter_same_update:
  "filter (same_checkpoint e n)
     (map (\<lambda>c. if same_checkpoint e n c then c\<lparr> cp_type := t, cp_order := ord, cp_active := True \<rparr> else c) tbl) =
   map (\<lambda>c. c\<lparr> cp_type := t, cp_order := ord, cp_active := True \<rparr>) (filter (same_checkpoint e n) tbl)"
  by (induction tbl) (auto simp: same_checkpoint_def)

lemma upsert_matching:
  "filter (same_checkpoint e n) (upsert_checkpoint tbl e n t ord) =
     (if list_ex (same_checkpoint e n) tbl
      then map (\<lambda>c. c\<lparr> cp_type := t, cp_order := ord, cp_active := True \<rparr>) (filter (same_checkpoint e n) tbl)
      else [\<lparr> cp_event_name = e, cp_name = n, cp_type = t, cp_order = ord, cp_active = True \<rparr>])"
proof (cases "list_ex (same_checkpoint e n) tbl")
  case True
  then show ?thesis by (simp add: upsert_checkpoint_def filter_same_update)
next
  case False
  then have "filter (same_checkpoint e n) tbl = []"
    by (simp add: list_ex_iff filter_empty_conv)
  then show ?thesis using False by (simp add: upsert_checkpoint_def same_checkpoint_def)
qed

lemma upsert_count:
  "length (filter (same_checkpoint e n) (upsert_checkpoint tbl e n t ord)) =
     max 1 (length (filter (same_checkpoint e n) tbl))"
proof (cases "list_ex (same_checkpoint e n) tbl")
  case True
  then have "filter (same_checkpoint e n) tbl \<noteq> []"
    by (simp add: list_ex_iff filter_empty_conv)
  then have "1 \<le> length (filter (same_checkpoint e n) tbl)"
    by (cases "filter (same_checkpoint e n) tbl") simp_all
  then show ?thesis using True by (simp add: upsert_matching)
next
  case False
  then have "filter (same_checkpoint e n) tbl = []"
    by (simp add: list_ex_iff filter_empty_conv)
  then show ?thesis using False by (simp add: upsert_matching)
qed

lemma upsert_rows:
  "list_all (\<lambda>c. cp_active c \<and> cp_type c = t \<and> cp_order c = ord)
     (filter (same_checkpoint e n) (upsert_checkpoint tbl e n t ord))"
  by (simp add: upsert_matching list_all_iff)

lemma upsert_others:
  "filter (\<lambda>c. \<not> same_checkpoint e n c) (upsert_checkpoint tbl e n t ord) =
   filter (\<lambda>c. \<not> same_checkpoint e n c) tbl"
proof -
  have "filter (\<lambda>c. \<not> same_checkpoint e n c)
          (map (\<lambda>c. if same_checkpoint e n c then c\<lparr> cp_type := t, cp_order := ord, cp_active := True \<rparr> else c) tbl) =
        filter (\<lambda>c. \<not> same_checkpoint e n c) tbl"
    by (induction tbl) (auto simp: same_checkpoint_def)
  then show ?thesis by (simp add: upsert_checkpoint_def same_checkpoint_def)
qed

text \<open>
  Claim C9. For a caller allowed to manage events and a request naming an event and a
  checkpoint: the type is \<^verbatim>\<open>IN\<close> (entry) when no type field is given; a
  type other than \<^verbatim>\<open>IN\<close> and \<^verbatim>\<open>OUT\<close> fails with
  \<^verbatim>\<open>InvalidCheckpointType\<close>; a name that, once trimmed, with its runs of
  spaces and dashes turned into underscores and upper-cased, has a character other than
  a letter, a digit or an underscore fails with \<^verbatim>\<open>InvalidCheckpointName\<close>;
  otherwise the request succeeds, the registry afterwards holds as many rows for the
  event and the normalized name as before, or one if it held none, all of them active
  with the requested type and order, and the other rows are unchanged.
\<close>

theorem checkpoint_create_or_reactivate:
  "(role = Some ''admin'' \<or> role = Some ''event_manager'') \<and>
   b_event_name b = Some en \<and> en \<noteq> [] \<and> b_checkpoint_name b = Some raw \<and> raw \<noteq> [] \<longrightarrow>
     (b_checkpoint_type b = None \<and> b_type b = None \<and> b_checkpointType b = None \<longrightarrow>
        requested_type b = ''IN'') \<and>
     (requested_type b \<noteq> ''IN'' \<and> requested_type b \<noteq> ''OUT'' \<longrightarrow>
        add_checkpoint role S b = Inl InvalidCheckpointType) \<and>
     ((requested_type b = ''IN'' \<or> requested_type b = ''OUT'') \<and>
      \<not> name_allowed (normalize_checkpoint_name raw) \<longrightarrow>
        add_checkpoint role S b = Inl InvalidCheckpointName) \<and>
     ((requested_type b = ''IN'' \<or> requested_type b = ''OUT'') \<and>
      name_allowed (normalize_checkpoint_name raw) \<longrightarrow>
        (\<exists>S'. add_checkpoint role S b = Inr S' \<and>
           list_all is_name_char (normalize_checkpoint_name raw) \<and>
           length (filter (same_checkpoint en (normalize_checkpoint_name raw)) (checkpoints S')) =
             max 1 (length (filter (same_checkpoint en (normalize_checkpoint_name raw)) (checkpoints S))) \<and>
           list_all (\<lambda>c. cp_active c \<and> cp_type c = requested_type b \<and> cp_order c = requested_order b)
             (filter (same_checkpoint en (normalize_checkpoint_name raw)) (checkpoints S')) \<and>
           filter (\<lambda>c. \<not> same_checkpoint en (normalize_checkpoint_name raw) c) (checkpoints S') =
             filter (\<lambda>c. \<not> same_checkpoint en (normalize_checkpoint_name raw) c) (checkpoints S)))"
proof
  assume h: "(role = Some ''admin'' \<or> role = Some ''event_manager'') \<and>
   b_event_name b = Some en \<and> en \<noteq> [] \<and> b_checkpoint_name b = Some raw \<and> raw \<noteq> []"
  let ?n = "normalize_checkpoint_name raw"
  have eq: "add_checkpoint role S b =
     (if requested_type b \<notin> set [''IN'', ''OUT''] then Inl InvalidCheckpointType
      else if \<not> name_allowed ?n then Inl InvalidCheckpointName
      else Inr (S\<lparr> checkpoints := upsert_checkpoint (checkpoints S) en ?n
                                      (requested_type b) (requested_order b) \<rparr>))"
    using h by (intro add_checkpoint_eq) simp_all
  have a: "b_checkpoint_type b = None \<and> b_type b = None \<and> b_checkpointType b = None \<longrightarrow>
        requested_type b = ''IN''"
    by (simp add: requested_type_def coalesce_def toUpperCase_def to_upper_def)
  have b: "requested_type b \<noteq> ''IN'' \<and> requested_type b \<noteq> ''OUT'' \<longrightarrow>
        add_checkpoint role S b = Inl InvalidCheckpointType"
    unfolding eq by simp
  have c: "(requested_type b = ''IN'' \<or> requested_type b = ''OUT'') \<and> \<not> name_allowed ?n \<longrightarrow>
        add_checkpoint role S b = Inl InvalidCheckpointName"
    unfolding eq by auto
  have d: "(requested_type b = ''IN'' \<or> requested_type b = ''OUT'') \<and> name_allowed ?n \<longrightarrow>
        (\<exists>S'. add_checkpoint role S b = Inr S' \<and>
           list_all is_name_char ?n \<and>
           length (filter (same_checkpoint en ?n) (checkpoints S')) =
             max 1 (length (filter (same_checkpoint en ?n) (checkpoints S))) \<and>
           list_all (\<lambda>c. cp_active c \<and> cp_type c = requested_type b \<and> cp_order c = requested_order b)
             (filter (same_checkpoint en ?n) (checkpoints S')) \<and>
           filter (\<lambda>c. \<not> same_checkpoint en ?n c) (checkpoints S') =
             filter (\<lambda>c. \<not> same_checkpoint en ?n c) (checkpoints S))"
  proof
    assume t: "(requested_type b = ''IN'' \<or> requested_type b = ''OUT'') \<and> name_allowed ?n"
    let ?S' = "S\<lparr> checkpoints := upsert_checkpoint (checkpoints S) en ?n
                                      (requested_type b) (requested_order b) \<rparr>"
    have r: "add_checkpoint role S b = Inr ?S'"
      unfolding eq using t by auto
    have nm: "list_all is_name_char ?n"
      using t by (simp add: name_allowed_def)
    show "\<exists>S'. add_checkpoint role S b = Inr S' \<and>
           list_all is_name_char ?n \<and>
           length (filter (same_checkpoint en ?n) (checkpoints S')) =
             max 1 (length (filter (same_checkpoint en ?n) (checkpoints S))) \<and>
           list_all (\<lambda>c. cp_active c \<and> cp_type c = requested_type b \<and> cp_order c = requested_order b)
             (filter (same_checkpoint en ?n) (checkpoints S')) \<and>
           filter (\<lambda>c. \<not> same_checkpoint en ?n c) (checkpoints S') =
             filter (\<lambda>c. \<not> same_checkpoint en ?n c) (checkpoints S)"
      using r nm upsert_count[of en ?n "checkpoints S" "requested_type b" "requested_order b"]
            upsert_rows[of "requested_type b" "requested_order b" en ?n "checkpoints S"]
            upsert_others[of en ?n "checkpoints S" "requested_type b" "requested_order b"]
      by (intro exI[of _ ?S']) simp
  qed
  show "(b_checkpoint_type b = None \<and> b_type b = None \<and> b_checkpointType b = None \<longrightarrow>
        requested_type b = ''IN'') \<and>
     (requested_type b \<noteq> ''IN'' \<and> requested_type b \<noteq> ''OUT'' \<longrightarrow>
        add_checkpoint role S b = Inl InvalidCheckpointType) \<and>
     ((requested_type b = ''IN'' \<or> requested_type b = ''OUT'') \<and>
      \<not> name_allowed ?n \<longrightarrow>
        add_checkpoint role S b = Inl InvalidCheckpointName) \<and>
     ((requested_type b = ''IN'' \<or> requested_type b = ''OUT'') \<and>
      name_allowed ?n \<longrightarrow>
        (\<exists>S'. add_checkpoint role S b = Inr S' \<and>
           list_all is_name_char ?n \<and>
           length (filter (same_checkpoint en ?n) (checkpoints S')) =
             max 1 (length (filter (same_checkpoint en ?n) (checkpoints S))) \<and>
           list_all (\<lambda>c. cp_active c \<and> cp_type c = requested_type b \<and> cp_order c = requested_order b)
             (filter (same_checkpoint en ?n) (checkpoints S')) \<and>
           filter (\<lambda>c. \<not> same_checkpoint en ?n c) (checkpoints S') =
             filter (\<lambda>c. \<not> same_checkpoint en ?n c) (checkpoints S)))"
    by (rule conjI[OF a conjI[OF b conjI[OF c d]]])
qed

theorem checkpoint_create_or_reactivate_witness:
  "normalize_checkpoint_name '' main - gate '' = ''MAIN_GATE'' \<and>
   (\<exists>S'. add_checkpoint (Some ''admin'') closed_gate_store gate_body = Inr S' \<and>
      length (filter (same_checkpoint ''Expo'' ''MAIN_GATE'') (checkpoints S')) = 1 \<and>
      list_all (\<lambda>c. cp_active c \<and> cp_type c = ''OUT'' \<and> cp_order c = 3)
        (filter (same_checkpoint ''Expo'' ''MAIN_GATE'') (checkpoints S'))) \<and>
   add_checkpoint (Some ''admin'') closed_gate_store (gate_body\<lparr> b_checkpoint_name := Some ''hall#2'' \<rparr>) =
     Inl InvalidCheckpointName \<and>
   add_checkpoint (Some ''admin'') closed_gate_store (gate_body\<lparr> b_checkpoint_type := Some ''both'' \<rparr>) =
     Inl InvalidCheckpointType \<and>
   requested_type (gate_body\<lparr> b_checkpoint_type := None \<rparr>) = ''IN''"
proof -
  have nn: "normalize_checkpoint_name '' main - gate '' = ''MAIN_GATE''" by code_simp
  have rt: "requested_type gate_body = ''OUT''" by code_simp
  have ro: "requested_order gate_body = 3" by (simp add: requested_order_def gate_body_def)
  have na: "name_allowed ''MAIN_GATE''" by code_simp
  have old: "length (filter (same_checkpoint ''Expo'' ''MAIN_GATE'') (checkpoints closed_gate_store)) = 1"
    by (simp add: closed_gate_store_def same_checkpoint_def)
  have h1: "(Some ''admin'' = Some ''admin'' \<or> Some ''admin'' = Some ''event_manager'') \<and>
     b_event_name gate_body = Some ''Expo'' \<and> ''Expo'' \<noteq> [] \<and>
     b_checkpoint_name gate_body = Some '' main - gate '' \<and> '' main - gate '' \<noteq> []"
    by (simp add: gate_body_def)
  note c1 = mp[OF checkpoint_create_or_reactivate[where role = "Some ''admin''" and b = gate_body
      and en = "''Expo''" and raw = "'' main - gate ''" and S = closed_gate_store] h1]
  have s1: "\<exists>S'. add_checkpoint (Some ''admin'') closed_gate_store gate_body = Inr S' \<and>
      length (filter (same_checkpoint ''Expo'' ''MAIN_GATE'') (checkpoints S')) = 1 \<and>
      list_all (\<lambda>c. cp_active c \<and> cp_type c = ''OUT'' \<and> cp_order c = 3)
        (filter (same_checkpoint ''Expo'' ''MAIN_GATE'') (checkpoints S'))"
    using conjunct2[OF conjunct2[OF conjunct2[OF c1]]] na
    unfolding nn rt ro old by auto
  have h2: "(Some ''admin'' = Some ''admin'' \<or> Some ''admin'' = Some ''event_manager'') \<and>
     b_event_name (gate_body\<lparr> b_checkpoint_name := Some ''hall#2'' \<rparr>) = Some ''Expo'' \<and> ''Expo'' \<noteq> [] \<and>
     b_checkpoint_name (gate_body\<lparr> b_checkpoint_name := Some ''hall#2'' \<rparr>) = Some ''hall#2'' \<and>
     ''hall#2'' \<noteq> []"
    by (simp add: gate_body_def)
  note c2 = mp[OF checkpoint_create_or_reactivate[where role = "Some ''admin''"
      and b = "gate_body\<lparr> b_checkpoint_name := Some ''hall#2'' \<rparr>"
      and en = "''Expo''" and raw = "''hall#2''" and S = closed_gate_store] h2]
  have rt2: "requested_type (gate_body\<lparr> b_checkpoint_name := Some ''hall#2'' \<rparr>) = ''OUT''" by code_simp
  have na2: "\<not> name_allowed (normalize_checkpoint_name ''hall#2'')" by code_simp
  have s2: "add_checkpoint (Some ''admin'') closed_gate_store (gate_body\<lparr> b_checkpoint_name := Some ''hall#2'' \<rparr>) =
     Inl InvalidCheckpointName"
    using conjunct1[OF conjunct2[OF conjunct2[OF c2]]] na2 unfolding rt2 by simp
  have h3: "(Some ''admin'' = Some ''admin'' \<or> Some ''admin'' = Some ''event_manager'') \<and>
     b_event_name (gate_body\<lparr> b_checkpoint_type := Some ''both'' \<rparr>) = Some ''Expo'' \<and> ''Expo'' \<noteq> [] \<and>
     b_checkpoint_name (gate_body\<lparr> b_checkpoint_type := Some ''both'' \<rparr>) = Some '' main - gate '' \<and>
     '' main - gate '' \<noteq> []"
    by (simp add: gate_body_def)
  note c3 = mp[OF checkpoint_create_or_reactivate[where role = "Some ''admin''"
      and b = "gate_body\<lparr> b_checkpoint_type := Some ''both'' \<rparr>"
      and en = "''Expo''" and raw = "'' main - gate ''" and S = closed_gate_store] h3]
  have rt3: "requested_type (gate_body\<lparr> b_checkpoint_type := Some ''both'' \<rparr>) = ''BOTH''" by code_simp
  have s3: "add_checkpoint (Some ''admin'') closed_gate_store (gate_body\<lparr> b_checkpoint_type := Some ''both'' \<rparr>) =
     Inl InvalidCheckpointType"
    using conjunct1[OF conjunct2[OF c3]] unfolding rt3 by simp
  have h4: "(Some ''admin'' = Some ''admin'' \<or> Some ''admin'' = Some ''event_manager'') \<and>
     b_event_name (gate_body\<lparr> b_checkpoint_type := None \<rparr>) = Some ''Expo'' \<and> ''Expo'' \<noteq> [] \<and>
     b_checkpoint_name (gate_body\<lparr> b_checkpoint_type := None \<rparr>) = Some '' main - gate '' \<and>
     '' main - gate '' \<noteq> []"
    by (simp add: gate_body_def)
  note c4 = mp[OF checkpoint_create_or_reactivate[where role = "Some ''admin''"
      and b = "gate_body\<lparr> b_checkpoint_type := None \<rparr>"
      and en = "''Expo''" and raw = "'' main - gate ''" and S = closed_gate_store] h4]
  have s4: "requested_type (gate_body\<lparr> b_checkpoint_type := None \<rparr>) = ''IN''"
    using conjunct1[OF c4] by (simp add: gate_body_def)
  show ?thesis by (rule conjI[OF nn conjI[OF s1 conjI[OF s2 conjI[OF s3 s4]]]])
qed

section \<open>Checkpoint logs and the availability matrix\<close>





lemma latest_time_None: "latest_time ts = None \<longleftrightarrow> ts = []"
  by (simp add: latest_time_def split: list.splits)






















text \<open>
  Every store the two writers produce keeps checkpoint names free of colons: the
  registry only accepts names over \<^verbatim>\<open>[A-Z0-9_]\<close>, and a check only logs
  the name of a registered checkpoint.
\<close>

lemma colon_not_name_char: "\<not> is_name_char (CHR '':'')"
  by (simp add: is_name_char_def)

lemma name_allowed_no_colon: "name_allowed n \<Longrightarrow> CHR '':'' \<notin> set n"
proof
  assume a: "name_allowed n" and c: "CHR '':'' \<in> set n"
  then have "is_name_char (CHR '':'')" by (simp add: name_allowed_def list_all_iff)
  then show False by (simp add: colon_not_name_char)
qed

lemma upsert_keeps_names:
  assumes "list_all (\<lambda>c. CHR '':'' \<notin> set (cp_name c)) tbl" "CHR '':'' \<notin> set n"
  shows "list_all (\<lambda>c. CHR '':'' \<notin> set (cp_name c)) (upsert_checkpoint tbl e n t ord)"
  using assms by (auto simp: upsert_checkpoint_def list_all_iff)

lemma last_branch_taken:
  "(if a then Inl x else if b then Inl y else if c then Inl z else if d then Inl w else Inr v) = Inr s
     \<Longrightarrow> \<not> d \<and> v = s"
  by (simp split: if_splits)

lemma add_checkpoint_unfold:
  "add_checkpoint role S b =
     (if role \<noteq> Some ''admin'' \<and> role \<noteq> Some ''event_manager'' then Inl FORBIDDEN
      else if \<not> (truthy (if \<not> truthy (b_event_name b) \<and> truthy_num (b_event_id b)
               then (case filter (\<lambda>ev. Some (fst ev) = b_event_id b) (events S) of
                       [] \<Rightarrow> b_event_name b
                     | ev # evs \<Rightarrow> Some (snd ev))
               else b_event_name b) \<and> truthy (b_checkpoint_name b)) then Inl MISSING_REQUIRED
      else if requested_type b \<notin> set [''IN'', ''OUT''] then Inl InvalidCheckpointType
      else if \<not> name_allowed (normalize_checkpoint_name (the (b_checkpoint_name b))) then Inl InvalidCheckpointName
      else Inr (S\<lparr> checkpoints := upsert_checkpoint (checkpoints S) (the (if \<not> truthy (b_event_name b) \<and> truthy_num (b_event_id b)
               then (case filter (\<lambda>ev. Some (fst ev) = b_event_id b) (events S) of
                       [] \<Rightarrow> b_event_name b
                     | ev # evs \<Rightarrow> Some (snd ev))
               else b_event_name b)) (normalize_checkpoint_name (the (b_checkpoint_name b))) (requested_type b) (requested_order b) \<rparr>))"
  unfolding add_checkpoint_def Let_def requested_type_def requested_order_def by (rule refl)

lemma add_checkpoint_Inr:
  assumes "add_checkpoint role S b = Inr S'"
  shows "\<exists>e. name_allowed (normalize_checkpoint_name (the (b_checkpoint_name b))) \<and>
           S\<lparr> checkpoints := upsert_checkpoint (checkpoints S) e
                 (normalize_checkpoint_name (the (b_checkpoint_name b)))
                 (requested_type b) (requested_order b) \<rparr> = S'"
proof -
  note r = last_branch_taken[OF assms[unfolded add_checkpoint_unfold]]
  have n: "name_allowed (normalize_checkpoint_name (the (b_checkpoint_name b)))"
    using conjunct1[OF r] by (rule notnotD)
  show ?thesis
    by (rule exI, rule conjI[OF n conjunct2[OF r]])
qed


lemma add_checkpoint_keeps_names:
  assumes "add_checkpoint role S b = Inr S'" "names_without_colon S"
  shows "names_without_colon S'"
  using add_checkpoint_Inr[OF assms(1)]
proof (elim exE conjE)
  fix e
  let ?n = "normalize_checkpoint_name (the (b_checkpoint_name b))"
  assume n: "name_allowed ?n"
    and S': "S\<lparr> checkpoints := upsert_checkpoint (checkpoints S) e ?n
                    (requested_type b) (requested_order b) \<rparr> = S'"
  have "list_all (\<lambda>c. CHR '':'' \<notin> set (cp_name c))
          (upsert_checkpoint (checkpoints S) e ?n (requested_type b) (requested_order b))"
  proof (rule upsert_keeps_names)
    show "list_all (\<lambda>c. CHR '':'' \<notin> set (cp_name c)) (checkpoints S)"
      using assms(2) by (simp add: names_without_colon_def)
    show "CHR '':'' \<notin> set ?n" using n by (rule name_allowed_no_colon)
  qed
  moreover have "list_all (\<lambda>l. CHR '':'' \<notin> set (log_checkpoint l)) (logs S)"
    using assms(2) by (simp add: names_without_colon_def)
  ultimately show ?thesis
    unfolding S'[symmetric] names_without_colon_def by simp
qed

lemma check_keeps_names:
  assumes "event_manager_check nm S now b = Inr S'" "names_without_colon S"
  shows "names_without_colon S'"
  using assms
  by (fastforce simp: event_manager_check_def Let_def names_without_colon_def list_all_iff list_ex_iff
           split: if_splits option.splits)



end
